theory Spec2Isabelle
  imports Complex_Main "HOL-Library.Sublist" "HOL-Library.Multiset"
    "HOL-Library.Code_Target_Nat"
begin

section \<open>Strings and numbers of the source language\<close>

text \<open>
  A TypeScript string is a sequence of UTF-16 code units, and the regular expressions of
  the source (written without the \<^verbatim>\<open>u\<close> flag) work on code units.  A string is
  therefore a list of code units, each a natural number below 65536; the Chinese
  literals of the source are written out as their code units.  \<open>ascii\<close> turns an ASCII
  literal into such a string.
\<close>

type_synonym jsstring = "nat list"

definition ascii :: "string \<Rightarrow> jsstring" where
  "ascii s = map of_char s"

text \<open>The character classes \<^verbatim>\<open>\d\<close>, \<^verbatim>\<open>\s\<close> and the line terminators that
  \<^verbatim>\<open>.\<close> refuses to match.\<close>

definition isDigit :: "nat \<Rightarrow> bool" where
  "isDigit c = (48 \<le> c \<and> c \<le> 57)"

definition isLineTerminator :: "nat \<Rightarrow> bool" where
  "isLineTerminator c = (c = 10 \<or> c = 13 \<or> c = 8232 \<or> c = 8233)"

definition isSpace :: "nat \<Rightarrow> bool" where
  "isSpace c = ((9 \<le> c \<and> c \<le> 13) \<or> c = 32 \<or> c = 160 \<or> c = 5760
     \<or> (8192 \<le> c \<and> c \<le> 8202) \<or> c = 8232 \<or> c = 8233 \<or> c = 8239
     \<or> c = 8287 \<or> c = 12288 \<or> c = 65279)"

text \<open>\<^verbatim>\<open>String.prototype.includes\<close>: the argument occurs as a contiguous piece.\<close>

primrec includesStr :: "jsstring \<Rightarrow> jsstring \<Rightarrow> bool" where
  "includesStr [] sub = (sub = [])"
| "includesStr (c # cs) sub = (prefix sub (c # cs) \<or> includesStr cs sub)"

text \<open>
  The pattern \<^verbatim>\<open>/^(\d+(?:\.\d+)?)\s*(.*)$/\<close> used by \<^verbatim>\<open>scaleIngredientAmount\<close> and
  \<^verbatim>\<open>combineQuantities\<close>.  Every quantifier is greedy and the last group accepts any
  text without a line terminator, so the first attempt of the backtracking matcher (the
  longest digit run, the fraction when a digit follows the dot, the longest run of white
  space) succeeds exactly when any attempt does: an attempt that gives back a character
  leaves \<^verbatim>\<open>(.*)$\<close> a longer text holding the same line terminator.  The result is the
  pair of the two capture groups.
\<close>

definition numericMatch :: "jsstring \<Rightarrow> (jsstring \<times> jsstring) option" where
  "numericMatch s =
     (let ip = takeWhile isDigit s; r1 = dropWhile isDigit s in
      if ip = [] then None
      else
        let (numStr, r2) =
              (case r1 of
                 [] \<Rightarrow> (ip, r1)
               | c # r \<Rightarrow>
                   if c = 46 \<and> takeWhile isDigit r \<noteq> []
                   then (ip @ [46] @ takeWhile isDigit r, dropWhile isDigit r)
                   else (ip, r1));
            unit = dropWhile isSpace r2
        in if list_ex isLineTerminator unit then None else Some (numStr, unit))"

text \<open>
  A \<^verbatim>\<open>number\<close> is modelled as an exact rational: the model is that of the source's
  arithmetic without the rounding error of IEEE doubles, and without \<^verbatim>\<open>NaN\<close> and
  the infinities (a division by a zero serving count is outside the model).
  \<^verbatim>\<open>parseFloat\<close> is only ever applied to the first capture group, an unsigned decimal
  numeral; \<^verbatim>\<open>Math.round\<close> rounds half up.
\<close>

definition digitsToNat :: "jsstring \<Rightarrow> nat" where
  "digitsToNat ds = foldl (\<lambda>acc c. 10 * acc + (c - 48)) 0 ds"

definition parseFloat :: "jsstring \<Rightarrow> rat" where
  "parseFloat s =
     (let ip = takeWhile isDigit s;
          fp = (case dropWhile isDigit s of
                  [] \<Rightarrow> []
                | c # r \<Rightarrow> if c = 46 then takeWhile isDigit r else [])
      in of_nat (digitsToNat ip) + of_nat (digitsToNat fp) / 10 ^ length fp)"

definition mathRound :: "rat \<Rightarrow> rat" where
  "mathRound x = of_int \<lfloor>x + 1 / 2\<rfloor>"

text \<open>
  The template literal \<^verbatim>\<open>`${roundedNum}`\<close> prints a number in the shortest decimal
  form.  The source prints only values \<^verbatim>\<open>Math.round(x * 100) / 100\<close> with
  \<open>x \<ge> 0\<close>, that is non-negative multiples of one hundredth: the integer part without
  leading zeros, then the one or two fraction digits that are needed.  (The exponent
  form that JavaScript uses from \<open>10\<^sup>2\<^sup>1\<close> on is outside the model.)
\<close>

fun showNat :: "nat \<Rightarrow> jsstring" where
  "showNat n = (if n < 10 then [48 + n] else showNat (n div 10) @ [48 + n mod 10])"

declare showNat.simps [simp del]

definition numToString :: "rat \<Rightarrow> jsstring" where
  "numToString x =
     (let k = nat \<lfloor>x * 100\<rfloor>; f = k mod 100 in
      showNat (k div 100) @
        (if f = 0 then []
         else if f mod 10 = 0 then [46, 48 + f div 10]
         else [46, 48 + f div 10, 48 + f mod 10]))"

section \<open>Recipes\<close>

datatype RecipeCategory =
    Seafood | Breakfast | Seasoning | Dessert | Beverage
  | Meat | SemiPrepared | Soup | Staple | Vegetarian

datatype DifficultyLevel = Easy | Medium | Hard

datatype CookingMethod =
    StirFry | Boil | Steam | Roast | DeepFry | Simmer | Stew | PanFry | Toss | Pickle
  | Braise | Marinate

record Ingredient =
  ingName :: jsstring
  amount :: jsstring
  ingNotes :: "jsstring option"

text \<open>
  The fields of a recipe that the engine reads.  The remaining fields of the source's
  \<^verbatim>\<open>Recipe\<close> (description, steps, tips, dates, ...) are carried along untouched by the
  object spread \<^verbatim>\<open>{...recipe, ...}\<close>, as a record update carries the fields it does
  not name.
\<close>

record Recipe =
  recipeId :: jsstring
  recipeName :: jsstring
  category :: RecipeCategory
  difficulty :: DifficultyLevel
  servings :: rat
  prepTime :: jsstring
  cookTime :: jsstring
  ingredients :: "Ingredient list"
  tags :: "jsstring list option"
  cookingMethods :: "CookingMethod list option"
  calories :: "rat option"

section \<open>Scaling (recipeUtils.ts)\<close>




section \<open>Shopping list (shoppingListUtils.ts)\<close>

datatype ShoppingCategory =
    Vegetables | Fruits | MeatGoods | SeafoodGoods | EggDairy | StapleGoods
  | Condiments | Frozen | Canned | Drinks | Snacks | Other

datatype Priority = High | Mid | Low

text \<open>
  A shopping item without its generated identifier (built from the clock and a random
  number, never read again) and without the advisory list of alternatives.
\<close>

record ShoppingItem =
  itemName :: jsstring
  itemCategory :: ShoppingCategory
  quantity :: jsstring
  estimatedPrice :: rat
  priority :: Priority
  itemNotes :: "jsstring option"
  recipeIds :: "jsstring list"
  recipeNames :: "jsstring list"
  isPurchased :: bool

record ShoppingSection =
  sectionCategory :: ShoppingCategory
  sectionItems :: "ShoppingItem list"
  sectionCost :: rat

record ShoppingList =
  sections :: "ShoppingSection list"
  totalItems :: nat
  totalEstimatedCost :: "rat option"

record ShoppingListRequest =
  numberOfPeople_sl :: rat
  consolidateItems :: "bool option"
  includePriceEstimates :: bool
  excludeCategories :: "ShoppingCategory list option"

text \<open>The keyword table of \<^verbatim>\<open>categorizeIngredient\<close>, in the order of its keys.\<close>

definition categoryKeywords :: "(ShoppingCategory \<times> jsstring list) list" where
  "categoryKeywords =
    [(Vegetables, [[30333, 33756], [33821, 21340], [22303, 35910], [30058, 33540],
        [40644, 29916], [33540, 23376], [35910, 35282], [33760, 33756], [38893, 33756],
        [33465, 33756], [27915, 33905], [22823, 33948], [29983, 23004]]),
     (Fruits, [[33529, 26524], [39321, 34121], [27225, 23376], [26792], [33889, 33796],
        [33609, 33683], [35199, 29916], [26592, 27308]]),
     (MeatGoods, [[29482, 32905], [29275, 32905], [32650, 32905], [40481, 32905],
        [40493, 32905], [25490, 39592], [32905, 19997], [32905, 29255]]),
     (SeafoodGoods, [[40060], [34430], [34809], [36125], [40063, 40060], [24102, 40060],
        [40644, 40060], [40072, 40060]]),
     (EggDairy, [[40481, 34507], [40493, 34507], [29275, 22902], [37240, 22902],
        [22902, 37226], [40644, 27833]]),
     (StapleGoods, [[22823, 31859], [38754, 31881], [38754, 26465], [39314, 22836],
        [38754, 21253], [22303, 35910]]),
     (Condiments, [[30416], [31958], [37259], [37233, 27833], [26009, 37202],
        [32993, 26898], [20843, 35282], [26690, 30382], [33457, 26898], [36771, 26898]]),
     (Frozen, [[20919, 20923], [36895, 20923]]),
     (Canned, [[32592, 35013], [32592, 22836]]),
     (Drinks, [[33590], [21654, 21857], [26524, 27713], [27773, 27700]]),
     (Snacks, [[39292, 24178], [34223, 29255], [22362, 26524]]),
     (Other, [])]"

definition categorizeIngredient :: "jsstring \<Rightarrow> ShoppingCategory" where
  "categorizeIngredient ingredientName =
     (case find (\<lambda>(cat, keywords).
                   list_ex (\<lambda>keyword. includesStr ingredientName keyword) keywords)
                categoryKeywords of
        Some (cat, keywords) \<Rightarrow> cat
      | None \<Rightarrow> Other)"

text \<open>The copy of \<^verbatim>\<open>scaleIngredientAmount\<close> in shoppingListUtils.ts has no list of
  special cases.\<close>

definition scaleIngredientAmount_shopping :: "jsstring \<Rightarrow> rat \<Rightarrow> jsstring" where
  "scaleIngredientAmount_shopping amt scaleFactor =
     (case numericMatch amt of
        Some (numStr, unit) \<Rightarrow>
          (let originalNum = parseFloat numStr;
               scaledNum = originalNum * scaleFactor;
               roundedNum = mathRound (scaledNum * 100) / 100
           in numToString roundedNum @ unit)
      | None \<Rightarrow> amt)"

definition plusSign :: jsstring where
  "plusSign = [32, 43, 32]"

definition combineQuantities :: "jsstring \<Rightarrow> jsstring \<Rightarrow> jsstring" where
  "combineQuantities qty1 qty2 =
     (case numericMatch qty1 of
        None \<Rightarrow> qty1 @ plusSign @ qty2
      | Some (num1, unit1) \<Rightarrow>
          (case numericMatch qty2 of
             None \<Rightarrow> qty1 @ plusSign @ qty2
           | Some (num2, unit2) \<Rightarrow>
               if unit1 = unit2
               then (let sum = parseFloat num1 + parseFloat num2
                     in numToString (mathRound (sum * 100) / 100) @ unit1)
               else qty1 @ plusSign @ qty2))"

definition priceRanges :: "ShoppingCategory \<Rightarrow> rat \<times> rat" where
  "priceRanges cat =
     (case cat of
        Vegetables \<Rightarrow> (2, 8) | Fruits \<Rightarrow> (5, 15) | MeatGoods \<Rightarrow> (15, 40)
      | SeafoodGoods \<Rightarrow> (20, 60) | EggDairy \<Rightarrow> (3, 12) | StapleGoods \<Rightarrow> (2, 10)
      | Condiments \<Rightarrow> (1, 8) | Frozen \<Rightarrow> (8, 25) | Canned \<Rightarrow> (5, 15)
      | Drinks \<Rightarrow> (3, 12) | Snacks \<Rightarrow> (5, 20) | Other \<Rightarrow> (2, 15))"

definition estimatePrice :: "jsstring \<Rightarrow> ShoppingCategory \<Rightarrow> rat" where
  "estimatePrice ingredientName cat =
     (let (lo, hi) = priceRanges cat in mathRound ((lo + hi) / 2))"

definition highPriorityItems :: "jsstring list" where
  "highPriorityItems = [[30416], [27833], [31859], [38754], [34507], [22902]]"

definition determinePriority :: "jsstring \<Rightarrow> ShoppingCategory \<Rightarrow> Priority" where
  "determinePriority ingredientName cat =
     (if list_ex (\<lambda>item. includesStr ingredientName item) highPriorityItems then High
      else if cat = Snacks \<or> cat = Drinks then Low
      else Mid)"

text \<open>
  A JavaScript \<^verbatim>\<open>Map\<close> keeps its keys in the order of their first insertion.  It is an
  association list with distinct keys: \<open>mapSet\<close> replaces the value of a key that is
  present where it stands, and appends a new key at the end.
\<close>

fun mapSet :: "'k \<Rightarrow> 'v \<Rightarrow> ('k \<times> 'v) list \<Rightarrow> ('k \<times> 'v) list" where
  "mapSet k v [] = [(k, v)]"
| "mapSet k v ((k', v') # m) = (if k' = k then (k, v) # m else (k', v') # mapSet k v m)"

definition itemKey :: "bool \<Rightarrow> Recipe \<Rightarrow> Ingredient \<Rightarrow> jsstring" where
  "itemKey shouldConsolidate recipe ingredient =
     (if shouldConsolidate then ingName ingredient
      else ingName ingredient @ [95] @ recipeId recipe)"

text \<open>The body of the inner \<^verbatim>\<open>forEach\<close> of \<^verbatim>\<open>consolidateIngredients\<close>.\<close>

definition addIngredient ::
  "bool \<Rightarrow> rat \<Rightarrow> Recipe \<Rightarrow> (jsstring \<times> ShoppingItem) list \<Rightarrow> Ingredient
     \<Rightarrow> (jsstring \<times> ShoppingItem) list" where
  "addIngredient shouldConsolidate scaleFactor recipe ingredientMap ingredient =
     (let scaledAmount = scaleIngredientAmount_shopping (amount ingredient) scaleFactor;
          cat = categorizeIngredient (ingName ingredient);
          key = itemKey shouldConsolidate recipe ingredient
      in case map_of ingredientMap key of
           Some existingItem \<Rightarrow>
             mapSet key
               (existingItem
                  \<lparr>quantity := (if shouldConsolidate
                                then combineQuantities (quantity existingItem) scaledAmount
                                else scaledAmount),
                   recipeIds := recipeIds existingItem @ [recipeId recipe],
                   recipeNames := recipeNames existingItem @ [recipeName recipe]\<rparr>)
               ingredientMap
         | None \<Rightarrow>
             mapSet key
               \<lparr>itemName = ingName ingredient,
                itemCategory = cat,
                quantity = scaledAmount,
                estimatedPrice = estimatePrice (ingName ingredient) cat,
                priority = determinePriority (ingName ingredient) cat,
                itemNotes = ingNotes ingredient,
                recipeIds = [recipeId recipe],
                recipeNames = [recipeName recipe],
                isPurchased = False\<rparr>
               ingredientMap)"

definition addRecipe ::
  "bool \<Rightarrow> rat \<Rightarrow> (jsstring \<times> ShoppingItem) list \<Rightarrow> Recipe
     \<Rightarrow> (jsstring \<times> ShoppingItem) list" where
  "addRecipe shouldConsolidate numberOfPeople ingredientMap recipe =
     (let scaleFactor = numberOfPeople / servings recipe
      in foldl (addIngredient shouldConsolidate scaleFactor recipe) ingredientMap
           (ingredients recipe))"

definition consolidateIngredients :: "Recipe list \<Rightarrow> rat \<Rightarrow> bool \<Rightarrow> ShoppingItem list" where
  "consolidateIngredients recipes numberOfPeople shouldConsolidate =
     map snd (foldl (addRecipe shouldConsolidate numberOfPeople) [] recipes)"

text \<open>
  \<^verbatim>\<open>Array.prototype.sort\<close> is stable.  With a consistent comparator every stable sort
  returns the list that insertion from the right returns, each element placed before the
  first one that does not come before it.  \<^verbatim>\<open>localeCompare(_, 'zh-CN')\<close> is the
  collation of the runtime and is a parameter of the model.
\<close>

fun insortBy :: "('a \<Rightarrow> 'a \<Rightarrow> int) \<Rightarrow> 'a \<Rightarrow> 'a list \<Rightarrow> 'a list" where
  "insortBy cmp x [] = [x]"
| "insortBy cmp x (y # ys) = (if cmp x y \<le> 0 then x # y # ys else y # insortBy cmp x ys)"

definition sortBy :: "('a \<Rightarrow> 'a \<Rightarrow> int) \<Rightarrow> 'a list \<Rightarrow> 'a list" where
  "sortBy cmp xs = foldr (insortBy cmp) xs []"

fun indexOf :: "'a list \<Rightarrow> 'a \<Rightarrow> int" where
  "indexOf [] x = -1"
| "indexOf (y # ys) x = (if y = x then 0 else let i = indexOf ys x in if i < 0 then -1 else i + 1)"

definition categoryOrder :: "ShoppingCategory list" where
  "categoryOrder = [Vegetables, Fruits, MeatGoods, SeafoodGoods, EggDairy, StapleGoods,
     Condiments, Frozen, Canned, Drinks, Snacks, Other]"

definition pushByCategory ::
  "(ShoppingCategory \<times> ShoppingItem list) list \<Rightarrow> ShoppingItem
     \<Rightarrow> (ShoppingCategory \<times> ShoppingItem list) list" where
  "pushByCategory categoryMap item =
     (let categoryMap' = (case map_of categoryMap (itemCategory item) of
                            None \<Rightarrow> mapSet (itemCategory item) [] categoryMap
                          | Some items \<Rightarrow> categoryMap)
      in case map_of categoryMap' (itemCategory item) of
           Some items \<Rightarrow> mapSet (itemCategory item) (items @ [item]) categoryMap'
         | None \<Rightarrow> categoryMap')"

definition groupItemsByCategory ::
  "(jsstring \<Rightarrow> jsstring \<Rightarrow> int) \<Rightarrow> ShoppingItem list \<Rightarrow> ShoppingSection list" where
  "groupItemsByCategory localeCompare items =
     (let categoryMap = foldl pushByCategory [] items;
          sections =
            map (\<lambda>(cat, items).
                   \<lparr>sectionCategory = cat,
                    sectionItems =
                      sortBy (\<lambda>a b. localeCompare (itemName a) (itemName b)) items,
                    sectionCost = sum_list (map estimatedPrice items)\<rparr>)
                categoryMap
      in sortBy (\<lambda>a b. indexOf categoryOrder (sectionCategory a)
                        - indexOf categoryOrder (sectionCategory b))
           sections)"

definition calculateTotalCost :: "ShoppingSection list \<Rightarrow> rat" where
  "calculateTotalCost secs = foldl (\<lambda>total section. total + sectionCost section) 0 secs"

definition generateShoppingListFromRecipes ::
  "(jsstring \<Rightarrow> jsstring \<Rightarrow> int) \<Rightarrow> Recipe list \<Rightarrow> ShoppingListRequest \<Rightarrow> ShoppingList" where
  "generateShoppingListFromRecipes localeCompare recipes request =
     (let consolidatedItems =
            consolidateIngredients recipes (numberOfPeople_sl request)
              (case consolidateItems request of None \<Rightarrow> True | Some b \<Rightarrow> b);
          secs = groupItemsByCategory localeCompare consolidatedItems;
          filteredSections =
            (case excludeCategories request of
               Some excluded \<Rightarrow> filter (\<lambda>section. sectionCategory section \<notin> set excluded) secs
             | None \<Rightarrow> secs)
      in \<lparr>sections = filteredSections,
          totalItems = foldl (\<lambda>sum section. sum + length (sectionItems section)) 0
                         filteredSections,
          totalEstimatedCost =
            (if includePriceEstimates request then Some (calculateTotalCost filteredSections)
             else None)\<rparr>)"

section \<open>Meal plans (mealPlanUtils.ts)\<close>

datatype DietaryRestriction =
    VegetarianOnly | Vegan | GlutenFree | LowSalt | LowSugar | LowFat | HighProtein
  | NoNuts | NoSeafood | NoDairy

datatype SkillLevel = Beginner | Intermediate | Advanced

datatype BudgetLevel = Economy | Moderate | Premium

datatype MealType = BreakfastMeal | Lunch | Dinner | SnackMeal | LateNight

datatype DayOfWeek = Mon | Tue | Wed | Thu | Fri | Sat | Sun

text \<open>
  The lists of preferred and excluded categories are lists of strings in the source and
  are only ever compared with the category of a recipe; a string that names no category
  matches nothing, so the lists are lists of categories here.
\<close>

record MealPlanPreferences =
  numberOfPeople_mp :: rat
  dietaryRestrictions :: "DietaryRestriction list option"
  preferredCategories :: "RecipeCategory list option"
  excludedCategories :: "RecipeCategory list option"
  budgetLevel :: "BudgetLevel option"
  cookingSkillLevel :: "SkillLevel option"

record PlannedMeal =
  mealType :: MealType
  recipe :: Recipe
  servings_meal :: rat

text \<open>Dates are day numbers; the identifier, the name and the time stamps of a plan come
  from the clock and are left out.\<close>

record DailyMealPlan =
  day :: DayOfWeek
  date :: int
  meals :: "PlannedMeal list"
  totalCalories :: rat

record WeeklyMealPlan =
  startDate :: int
  endDate :: int
  preferences_plan :: MealPlanPreferences
  dailyPlans :: "DailyMealPlan list"

text \<open>
  What the source throws: a \<^verbatim>\<open>RangeError\<close> from \<^verbatim>\<open>toISOString\<close> on an invalid date, a
  \<^verbatim>\<open>TypeError\<close> from reading a property of \<^verbatim>\<open>undefined\<close>, a \<^verbatim>\<open>ZodError\<close> from
  \<^verbatim>\<open>parse\<close>.
\<close>

datatype JsError = TypeError | RangeError | ZodError

text \<open>
  \<^verbatim>\<open>Math.random\<close> is an explicit source of draws: \<open>rnd i\<close> is the \<open>i\<close>-th draw of the
  selection, and the number of draws made so far is threaded through the functions that
  select.  Only the draws of the selection are counted (the draws that build identifiers
  and pick a phrase for a recommendation are not modelled).  The contract of
  \<^verbatim>\<open>Math.random\<close> is that every draw lies in \<open>[0, 1)\<close>.
\<close>

type_synonym randomSource = "nat \<Rightarrow> rat"

definition unitInterval :: "randomSource \<Rightarrow> bool" where
  "unitInterval rnd = (\<forall>i. 0 \<le> rnd i \<and> rnd i < 1)"

text \<open>\<^verbatim>\<open>recipes[Math.floor(Math.random() * recipes.length)]\<close>: an index outside the array
  reads \<^verbatim>\<open>undefined\<close>, which is \<open>None\<close>.\<close>

definition selectRandomRecipe :: "Recipe list \<Rightarrow> rat \<Rightarrow> Recipe option" where
  "selectRandomRecipe recipes r =
     (let randomIndex = \<lfloor>r * of_nat (length recipes)\<rfloor>
      in if 0 \<le> randomIndex \<and> randomIndex < int (length recipes)
         then Some (recipes ! nat randomIndex) else None)"

definition skillMap :: "SkillLevel \<Rightarrow> DifficultyLevel list" where
  "skillMap level =
     (case level of
        Beginner \<Rightarrow> [Easy]
      | Intermediate \<Rightarrow> [Easy, Medium]
      | Advanced \<Rightarrow> [Easy, Medium, Hard])"

definition filterRecipesByPreferences :: "Recipe list \<Rightarrow> MealPlanPreferences \<Rightarrow> Recipe list" where
  "filterRecipesByPreferences recipes preferences =
     (let filtered1 =
            (case dietaryRestrictions preferences of
               None \<Rightarrow> recipes
             | Some restrictions \<Rightarrow>
                 if restrictions = [] then recipes
                 else filter (\<lambda>r. \<not> (VegetarianOnly \<in> set restrictions \<and> category r = Meat)
                                  \<and> \<not> (NoSeafood \<in> set restrictions \<and> category r = Seafood))
                        recipes);
          filtered2 =
            (case excludedCategories preferences of
               None \<Rightarrow> filtered1
             | Some excluded \<Rightarrow>
                 if excluded = [] then filtered1
                 else filter (\<lambda>r. category r \<notin> set excluded) filtered1);
          filtered3 =
            (case preferredCategories preferences of
               None \<Rightarrow> filtered2
             | Some preferred \<Rightarrow>
                 if preferred = [] then filtered2
                 else (let preferredRecipes = filter (\<lambda>r. category r \<in> set preferred) filtered2
                       in if preferredRecipes \<noteq> [] then preferredRecipes else filtered2))
      in case cookingSkillLevel preferences of
           None \<Rightarrow> filtered3
         | Some level \<Rightarrow> filter (\<lambda>r. difficulty r \<in> set (skillMap level)) filtered3)"

definition calculateDailyCalories :: "PlannedMeal list \<Rightarrow> rat" where
  "calculateDailyCalories ms =
     foldl (\<lambda>total meal.
              let recipeCalories = (case calories (recipe meal) of Some c \<Rightarrow> c | None \<Rightarrow> 0);
                  scaledCalories = (recipeCalories / servings (recipe meal)) * servings_meal meal
              in total + scaledCalories)
           0 ms"

definition breakfastTag :: jsstring where
  "breakfastTag = [26089, 39184]"

text \<open>
  One meal slot of \<^verbatim>\<open>generateDailyMealPlan\<close>: when there are candidates, one is drawn and
  a meal is pushed.  A draw outside the array pushes a meal whose recipe is
  \<^verbatim>\<open>undefined\<close> (\<open>None\<close>); \<^verbatim>\<open>calculateDailyCalories\<close> then throws at the end of the
  same call.
\<close>

definition planSlot ::
  "randomSource \<Rightarrow> MealType \<Rightarrow> Recipe list \<Rightarrow> rat \<Rightarrow> PlannedMeal option list \<times> nat
     \<Rightarrow> PlannedMeal option list \<times> nat" where
  "planSlot rnd slot candidates people st =
     (case st of (ms, i) \<Rightarrow>
        if candidates \<noteq> []
        then (ms @ [map_option (\<lambda>r. \<lparr>mealType = slot, recipe = r, servings_meal = people\<rparr>)
                      (selectRandomRecipe candidates (rnd i))], Suc i)
        else (ms, i))"

text \<open>The candidates of the three meal slots.\<close>

definition breakfastRecipes :: "Recipe list \<Rightarrow> Recipe list" where
  "breakfastRecipes recipes =
     filter (\<lambda>r. category r = Breakfast
                 \<or> (case tags r of Some ts \<Rightarrow> breakfastTag \<in> set ts | None \<Rightarrow> False))
            recipes"

definition lunchRecipes :: "Recipe list \<Rightarrow> Recipe list" where
  "lunchRecipes recipes =
     filter (\<lambda>r. category r \<in> set [Meat, Vegetarian, Staple, Soup]) recipes"

definition dinnerRecipes :: "Recipe list \<Rightarrow> Recipe list" where
  "dinnerRecipes recipes =
     filter (\<lambda>r. category r \<in> set [Meat, Vegetarian, Seafood, Soup]) recipes"

definition generateDailyMealPlan ::
  "randomSource \<Rightarrow> Recipe list \<Rightarrow> MealPlanPreferences \<Rightarrow> DayOfWeek \<Rightarrow> int \<Rightarrow> nat
     \<Rightarrow> (JsError \<times> nat) + (DailyMealPlan \<times> nat)" where
  "generateDailyMealPlan rnd recipes preferences d dt i =
     (let people = numberOfPeople_mp preferences;
          st1 = planSlot rnd BreakfastMeal (breakfastRecipes recipes) people ([], i);
          st2 = planSlot rnd Lunch (lunchRecipes recipes) people st1;
          st3 = planSlot rnd Dinner (dinnerRecipes recipes) people st2
      in case those (fst st3) of
           None \<Rightarrow> Inl (TypeError, snd st3)
         | Some ms \<Rightarrow>
             Inr (\<lparr>day = d, date = dt, meals = ms,
                   totalCalories = calculateDailyCalories ms\<rparr>, snd st3))"

definition daysOfWeek :: "DayOfWeek list" where
  "daysOfWeek = [Mon, Tue, Wed, Thu, Fri, Sat, Sun]"

text \<open>The loop \<^verbatim>\<open>for (let i = 0; i < 7; i++)\<close> over the list of its indices.\<close>

fun weekLoop ::
  "randomSource \<Rightarrow> Recipe list \<Rightarrow> MealPlanPreferences \<Rightarrow> int \<Rightarrow> nat list
     \<Rightarrow> DailyMealPlan list \<times> nat \<Rightarrow> (JsError \<times> nat) + (DailyMealPlan list \<times> nat)" where
  "weekLoop rnd recipes preferences start [] st = Inr st"
| "weekLoop rnd recipes preferences start (k # ks) (plans, i) =
     (case generateDailyMealPlan rnd recipes preferences (daysOfWeek ! k) (start + int k) i of
        Inl e \<Rightarrow> Inl e
      | Inr (dailyPlan, i') \<Rightarrow>
          weekLoop rnd recipes preferences start ks (plans @ [dailyPlan], i'))"

text \<open>
  \<^verbatim>\<open>new Date(startDate)\<close> and the clock are parameters: \<open>parseDate\<close> gives the day
  number of a date string, or \<open>None\<close> for an invalid date; \<open>nextMonday\<close> is what
  \<^verbatim>\<open>getNextMonday()\<close> returns.  An empty string is falsy.  With an invalid date
  \<^verbatim>\<open>toISOString\<close> throws while the arguments of the first
  \<^verbatim>\<open>generateDailyMealPlan\<close> are evaluated, before any draw.
\<close>

definition resolveStart ::
  "(jsstring \<Rightarrow> int option) \<Rightarrow> int \<Rightarrow> jsstring option \<Rightarrow> int option" where
  "resolveStart parseDate nextMonday startDateArg =
     (case startDateArg of
        None \<Rightarrow> Some nextMonday
      | Some s \<Rightarrow> if s = [] then Some nextMonday else parseDate s)"

definition generateWeeklyMealPlan ::
  "(jsstring \<Rightarrow> int option) \<Rightarrow> int \<Rightarrow> randomSource \<Rightarrow> Recipe list \<Rightarrow> MealPlanPreferences
     \<Rightarrow> jsstring option \<Rightarrow> nat \<Rightarrow> (JsError \<times> nat) + (WeeklyMealPlan \<times> nat)" where
  "generateWeeklyMealPlan parseDate nextMonday rnd recipes preferences startDateArg i =
     (let start = resolveStart parseDate nextMonday startDateArg;
          suitableRecipes = filterRecipesByPreferences recipes preferences
      in case start of
           None \<Rightarrow> Inl (RangeError, i)
         | Some s \<Rightarrow>
             (case weekLoop rnd suitableRecipes preferences s [0..<7] ([], i) of
                Inl e \<Rightarrow> Inl e
              | Inr (plans, i') \<Rightarrow>
                  Inr (\<lparr>startDate = s, endDate = s + 6, preferences_plan = preferences,
                        dailyPlans = plans\<rparr>, i')))"

definition validateMealPlanPreferences :: "MealPlanPreferences \<Rightarrow> bool" where
  "validateMealPlanPreferences preferences =
     (\<not> numberOfPeople_mp preferences \<le> 0 \<and> \<not> numberOfPeople_mp preferences > 20)"

definition generateShoppingListFromMealPlan ::
  "(jsstring \<Rightarrow> jsstring \<Rightarrow> int) \<Rightarrow> WeeklyMealPlan \<Rightarrow> ShoppingListRequest \<Rightarrow> ShoppingList" where
  "generateShoppingListFromMealPlan localeCompare mealPlan request =
     (let allRecipes = concat (map (\<lambda>d. map recipe (meals d)) (dailyPlans mealPlan))
      in generateShoppingListFromRecipes localeCompare allRecipes request)"

section \<open>Dish combinations (dishCombinationUtils.ts)\<close>

datatype DishRole = MainDish | SideDish | SoupDish | StapleDish | Appetizer | DessertDish

datatype DishPriority = Required | Recommended | Optional

text \<open>The dietary restrictions of a combination are strings in the source, compared
  with three literals only; they are values of the enumeration here.\<close>

record CombinationPreferences =
  numberOfPeople_cp :: rat
  dietaryRestrictions_cp :: "DietaryRestriction list option"
  cookingTime :: "jsstring option"
  skillLevel :: "SkillLevel option"

record CombinationRequest =
  preferences_cr :: CombinationPreferences
  excludeRecipeIds :: "jsstring list option"
  includeRecipeIds :: "jsstring list option"
  maxDishes :: "rat option"
  minDishes :: "rat option"

record RecommendedDish =
  dishRecipe :: Recipe
  role :: DishRole
  dishPriority :: DishPriority
  preparationOrder :: int
  servingOrder :: int

record NutritionalBalance =
  hasProtein :: bool
  hasVegetables :: bool
  hasCarbs :: bool
  isBalanced :: bool

text \<open>A combination without its generated identifier and its presentation texts (name,
  description, tips, alternatives, cost range).\<close>

record DishCombination =
  dishes :: "RecommendedDish list"
  totalPrepTime :: jsstring
  totalCookTime :: jsstring
  overallDifficulty :: DifficultyLevel
  servings_comb :: rat
  nutritionalBalance :: NutritionalBalance
  flavorProfile :: "jsstring list"

text \<open>
  A search for \<^verbatim>\<open>/(\d+)UNIT/\<close> where \<^verbatim>\<open>UNIT\<close> begins with a character that is no
  digit: the leftmost position from which the longest digit run is followed by the unit.
  The result is the capture group.
\<close>

fun matchDigitsThen :: "jsstring \<Rightarrow> jsstring \<Rightarrow> jsstring option" where
  "matchDigitsThen u [] = None"
| "matchDigitsThen u (c # cs) =
     (if isDigit c \<and> prefix u (dropWhile isDigit (c # cs))
      then Some (takeWhile isDigit (c # cs))
      else matchDigitsThen u cs)"

definition hourUnit :: jsstring where
  "hourUnit = [23567, 26102]"

definition minuteUnit :: jsstring where
  "minuteUnit = [20998, 38047]"

definition parseTimeInMinutes :: "jsstring \<Rightarrow> nat" where
  "parseTimeInMinutes timeStr =
     (case matchDigitsThen hourUnit timeStr of Some h \<Rightarrow> digitsToNat h * 60 | None \<Rightarrow> 0)
     + (case matchDigitsThen minuteUnit timeStr of Some m \<Rightarrow> digitsToNat m | None \<Rightarrow> 0)"

definition formatTimeFromMinutes :: "nat \<Rightarrow> jsstring" where
  "formatTimeFromMinutes minutes =
     (if minutes < 60 then showNat minutes @ minuteUnit
      else let hours = minutes div 60; remainingMinutes = minutes mod 60
           in if remainingMinutes = 0 then showNat hours @ hourUnit
              else showNat hours @ hourUnit @ showNat remainingMinutes @ minuteUnit)"

definition nutKeywords :: "jsstring list" where
  "nutKeywords = [[33457, 29983], [26680, 26691], [26447, 20161]]"

definition violates :: "DietaryRestriction \<Rightarrow> Recipe \<Rightarrow> bool" where
  "violates restriction r =
     ((restriction = VegetarianOnly \<and> category r = Meat)
      \<or> (restriction = NoSeafood \<and> category r = Seafood)
      \<or> (restriction = NoNuts
          \<and> list_ex (\<lambda>ing. list_ex (\<lambda>nut. includesStr (ingName ing) nut) nutKeywords)
               (ingredients r)))"

definition filterRecipesByPreferences_comb ::
  "Recipe list \<Rightarrow> CombinationPreferences \<Rightarrow> Recipe list" where
  "filterRecipesByPreferences_comb recipes preferences =
     (let filtered1 =
            (case dietaryRestrictions_cp preferences of
               None \<Rightarrow> recipes
             | Some restrictions \<Rightarrow>
                 if restrictions = [] then recipes
                 else filter (\<lambda>r. \<not> list_ex (\<lambda>restriction. violates restriction r) restrictions)
                        recipes);
          filtered2 =
            (case skillLevel preferences of
               None \<Rightarrow> filtered1
             | Some level \<Rightarrow> filter (\<lambda>r. difficulty r \<in> set (skillMap level)) filtered1)
      in case cookingTime preferences of
           None \<Rightarrow> filtered2
         | Some t \<Rightarrow>
             if t = [] then filtered2
             else (let maxMinutes = parseTimeInMinutes t
                   in filter (\<lambda>r. parseTimeInMinutes (prepTime r) + parseTimeInMinutes (cookTime r)
                                    \<le> maxMinutes)
                        filtered2))"

definition categoryPriority :: "RecipeCategory list" where
  "categoryPriority = [Meat, Vegetarian, Soup, Staple, Seafood]"

text \<open>
  The loop over \<^verbatim>\<open>categoryPriority\<close> with its \<^verbatim>\<open>break\<close> and \<^verbatim>\<open>continue\<close>.  The state
  is the list of selected recipes, the categories used, the recipes still available and
  the number of draws.  A draw outside the array makes \<^verbatim>\<open>selected.id\<close> throw.
\<close>

fun categoryLoop ::
  "randomSource \<Rightarrow> rat \<Rightarrow> RecipeCategory list
     \<Rightarrow> Recipe list \<times> RecipeCategory list \<times> Recipe list \<times> nat
     \<Rightarrow> (JsError \<times> nat) + (Recipe list \<times> RecipeCategory list \<times> Recipe list \<times> nat)" where
  "categoryLoop rnd maxD [] st = Inr st"
| "categoryLoop rnd maxD (c # cs) (selectedRecipes, usedCategories, availableRecipes, i) =
     (if of_nat (length selectedRecipes) \<ge> maxD
      then Inr (selectedRecipes, usedCategories, availableRecipes, i)
      else if c \<in> set usedCategories
      then categoryLoop rnd maxD cs (selectedRecipes, usedCategories, availableRecipes, i)
      else
        let categoryRecipes = filter (\<lambda>r. category r = c) availableRecipes in
        if categoryRecipes \<noteq> []
        then (case selectRandomRecipe categoryRecipes (rnd i) of
                None \<Rightarrow> Inl (TypeError, Suc i)
              | Some selected \<Rightarrow>
                  categoryLoop rnd maxD cs
                    (selectedRecipes @ [selected], usedCategories @ [c],
                     filter (\<lambda>r. recipeId r \<noteq> recipeId selected) availableRecipes, Suc i))
        else categoryLoop rnd maxD cs (selectedRecipes, usedCategories, availableRecipes, i))"

text \<open>The \<^verbatim>\<open>while\<close> loop that fills up to the bound.  Every round removes the recipe
  it selected from the available ones, so the loop ends.\<close>

function fillRemaining ::
  "randomSource \<Rightarrow> rat \<Rightarrow> Recipe list \<times> Recipe list \<times> nat
     \<Rightarrow> (JsError \<times> nat) + (Recipe list \<times> Recipe list \<times> nat)" where
  "fillRemaining rnd bound (selectedRecipes, availableRecipes, i) =
     (if of_nat (length selectedRecipes) < bound \<and> availableRecipes \<noteq> []
      then (case selectRandomRecipe availableRecipes (rnd i) of
              None \<Rightarrow> Inl (TypeError, Suc i)
            | Some selected \<Rightarrow>
                fillRemaining rnd bound
                  (selectedRecipes @ [selected],
                   filter (\<lambda>r. recipeId r \<noteq> recipeId selected) availableRecipes, Suc i))
      else Inr (selectedRecipes, availableRecipes, i))"
  by pat_completeness auto
termination
proof (relation "measure (\<lambda>(rnd, bound, selectedRecipes, availableRecipes, i).
                            length availableRecipes)")
  show "wf (measure (\<lambda>(rnd, bound, selectedRecipes, availableRecipes, i).
                       length availableRecipes))"
    by simp
next
  fix rnd :: randomSource and bound :: rat
    and selectedRecipes availableRecipes :: "Recipe list" and i :: nat and selected :: Recipe
  assume sel: "selectRandomRecipe availableRecipes (rnd i) = Some selected"
  define k where "k = \<lfloor>rnd i * of_nat (length availableRecipes)\<rfloor>"
  from sel have "0 \<le> k \<and> k < int (length availableRecipes)
      \<and> selected = availableRecipes ! nat k"
    unfolding selectRandomRecipe_def Let_def k_def [symmetric]
    by (simp split: if_splits)
  moreover from this have "nat k < length availableRecipes" by linarith
  ultimately have "selected \<in> set availableRecipes" by simp
  then have "length (filter (\<lambda>r. recipeId r \<noteq> recipeId selected) availableRecipes)
               < length availableRecipes"
    by (intro length_filter_less [of selected]) auto
  then show "((rnd, bound, selectedRecipes @ [selected],
               filter (\<lambda>r. recipeId r \<noteq> recipeId selected) availableRecipes, Suc i),
              (rnd, bound, selectedRecipes, availableRecipes, i))
             \<in> measure (\<lambda>(rnd, bound, selectedRecipes, availableRecipes, i).
                           length availableRecipes)"
    by simp
qed

declare fillRemaining.simps [simp del]

text \<open>\<^verbatim>\<open>x || d\<close> on an optional number: \<^verbatim>\<open>undefined\<close> and \<open>0\<close> are falsy.\<close>

definition orDefault :: "rat option \<Rightarrow> rat \<Rightarrow> rat" where
  "orDefault x d = (case x of None \<Rightarrow> d | Some v \<Rightarrow> if v = 0 then d else v)"

definition selectDishesForCombination ::
  "randomSource \<Rightarrow> Recipe list \<Rightarrow> rat \<Rightarrow> rat \<Rightarrow> jsstring list option \<Rightarrow> jsstring list option
     \<Rightarrow> nat \<Rightarrow> (JsError \<times> nat) + (Recipe list \<times> nat)" where
  "selectDishesForCombination rnd recipes maxD minD includeIds excludeIds i =
     (let available1 =
            (case excludeIds of
               None \<Rightarrow> recipes
             | Some ex \<Rightarrow>
                 if ex = [] then recipes else filter (\<lambda>r. recipeId r \<notin> set ex) recipes);
          requiredRecipes =
            (case includeIds of
               None \<Rightarrow> []
             | Some inc \<Rightarrow> filter (\<lambda>r. recipeId r \<in> set inc) recipes);
          available2 =
            (case includeIds of
               None \<Rightarrow> available1
             | Some inc \<Rightarrow>
                 if inc = [] then available1
                 else filter (\<lambda>r. recipeId r \<notin> set inc) available1);
          remainingSlots =
            min (maxD - of_nat (length requiredRecipes))
                (max 0 (minD - of_nat (length requiredRecipes)));
          usedCategories = remdups (map category requiredRecipes)
      in case categoryLoop rnd maxD categoryPriority
                (requiredRecipes, usedCategories, available2, i) of
           Inl e \<Rightarrow> Inl e
         | Inr (selected1, used, available3, i1) \<Rightarrow>
             (case fillRemaining rnd (max minD remainingSlots) (selected1, available3, i1) of
                Inl e \<Rightarrow> Inl e
              | Inr (selected2, available4, i2) \<Rightarrow> Inr (selected2, i2)))"

definition determineDishRole :: "Recipe \<Rightarrow> DishRole" where
  "determineDishRole r =
     (case category r of
        Meat \<Rightarrow> MainDish | Seafood \<Rightarrow> MainDish | Vegetarian \<Rightarrow> SideDish
      | Soup \<Rightarrow> SoupDish | Staple \<Rightarrow> StapleDish | Dessert \<Rightarrow> DessertDish
      | _ \<Rightarrow> SideDish)"

definition determineDishPriority :: "DishRole \<Rightarrow> CombinationPreferences \<Rightarrow> DishPriority" where
  "determineDishPriority rl preferences =
     (if rl = MainDish \<or> rl = StapleDish then Required
      else if rl = SoupDish \<and> numberOfPeople_cp preferences > 2 then Recommended
      else Optional)"

definition getServingOrder :: "DishRole \<Rightarrow> int" where
  "getServingOrder rl =
     (case rl of
        Appetizer \<Rightarrow> 1 | SoupDish \<Rightarrow> 2 | MainDish \<Rightarrow> 3 | SideDish \<Rightarrow> 4
      | StapleDish \<Rightarrow> 5 | DessertDish \<Rightarrow> 6)"

definition assignDishRoles :: "Recipe list \<Rightarrow> CombinationPreferences \<Rightarrow> RecommendedDish list" where
  "assignDishRoles recipes preferences =
     (let recommendedDishes =
            map (\<lambda>(r, index).
                   let rl = determineDishRole r in
                   \<lparr>dishRecipe = r, role = rl,
                    dishPriority = determineDishPriority rl preferences,
                    preparationOrder = int index + 1,
                    servingOrder = getServingOrder rl\<rparr>)
                (zip recipes [0..<length recipes])
      in sortBy (\<lambda>a b. preparationOrder a - preparationOrder b) recommendedDishes)"

definition calculateTotalPrepTime :: "RecommendedDish list \<Rightarrow> jsstring" where
  "calculateTotalPrepTime ds =
     formatTimeFromMinutes
       (foldl (\<lambda>sum dish. sum + parseTimeInMinutes (prepTime (dishRecipe dish))) 0 ds)"

text \<open>\<^verbatim>\<open>Math.max\<close> of no arguments is \<open>-\<infinity>\<close>, so that an empty list of dishes gives
  the estimate \<open>0\<close>.\<close>

definition calculateTotalCookTime :: "RecommendedDish list \<Rightarrow> jsstring" where
  "calculateTotalCookTime ds =
     (let cookTimes = map (\<lambda>dish. parseTimeInMinutes (cookTime (dishRecipe dish))) ds;
          totalCookTime = foldl (\<lambda>sum t. sum + t) 0 cookTimes;
          scaled = (of_nat totalCookTime :: rat) * (6 / 10);
          estimatedTime = (if cookTimes = [] then scaled
                           else max (of_nat (Max (set cookTimes))) scaled)
      in formatTimeFromMinutes (nat \<lfloor>mathRound estimatedTime\<rfloor>))"

definition difficultyScores :: "DifficultyLevel \<Rightarrow> rat" where
  "difficultyScores d = (case d of Easy \<Rightarrow> 1 | Medium \<Rightarrow> 2 | Hard \<Rightarrow> 3)"

text \<open>For no dishes the average is \<^verbatim>\<open>0 / 0\<close>, a \<^verbatim>\<open>NaN\<close> that fails both
  comparisons.\<close>

definition calculateOverallDifficulty :: "RecommendedDish list \<Rightarrow> DifficultyLevel" where
  "calculateOverallDifficulty ds =
     (if ds = [] then Hard
      else
        let avgScore =
              foldl (\<lambda>sum dish. sum + difficultyScores (difficulty (dishRecipe dish))) 0 ds
                / of_nat (length ds)
        in if avgScore \<le> 13 / 10 then Easy
           else if avgScore \<le> 23 / 10 then Medium
           else Hard)"

text \<open>The third label of the protein test, the shopping category of eggs and dairy, is
  the name of no recipe category.\<close>

definition analyzeNutritionalBalance :: "RecommendedDish list \<Rightarrow> NutritionalBalance" where
  "analyzeNutritionalBalance ds =
     (let categories = map (\<lambda>dish. category (dishRecipe dish)) ds;
          protein = list_ex (\<lambda>cat. cat \<in> set [Meat, Seafood]) categories;
          vegetables = Vegetarian \<in> set categories;
          carbs = Staple \<in> set categories
      in \<lparr>hasProtein = protein, hasVegetables = vegetables, hasCarbs = carbs,
          isBalanced = (protein \<and> vegetables \<and> carbs)\<rparr>)"

definition flavorTags :: "jsstring list" where
  "flavorTags = [[37240], [29980], [33510], [36771], [21688], [40092], [39321],
     [28165, 28129], [27987, 37057]]"

text \<open>A \<^verbatim>\<open>Set\<close> keeps the order of first insertion.\<close>

definition setAdd :: "'a \<Rightarrow> 'a list \<Rightarrow> 'a list" where
  "setAdd x xs = (if x \<in> set xs then xs else xs @ [x])"

definition methodFlavors :: "CookingMethod \<Rightarrow> jsstring list" where
  "methodFlavors method =
     (if method = StirFry then [[39321]] else [])
     @ (if method = Steam then [[28165, 28129]] else [])
     @ (if method = Stew then [[27987, 37057]] else [])"

definition dishFlavors :: "RecommendedDish \<Rightarrow> jsstring list" where
  "dishFlavors dish =
     (case tags (dishRecipe dish) of
        None \<Rightarrow> []
      | Some ts \<Rightarrow> filter (\<lambda>tag. tag \<in> set flavorTags) ts)
     @ (case cookingMethods (dishRecipe dish) of
          None \<Rightarrow> []
        | Some methods \<Rightarrow> concat (map methodFlavors methods))"

definition analyzeFlavorProfile :: "RecommendedDish list \<Rightarrow> jsstring list" where
  "analyzeFlavorProfile ds =
     foldl (\<lambda>flavors flavor. setAdd flavor flavors) [] (concat (map dishFlavors ds))"

definition generateDishCombination ::
  "randomSource \<Rightarrow> Recipe list \<Rightarrow> CombinationRequest \<Rightarrow> nat
     \<Rightarrow> (JsError \<times> nat) + (DishCombination \<times> nat)" where
  "generateDishCombination rnd recipes request i =
     (let preferences = preferences_cr request;
          suitableRecipes = filterRecipesByPreferences_comb recipes preferences
      in case selectDishesForCombination rnd suitableRecipes
                (orDefault (maxDishes request) 6) (orDefault (minDishes request) 3)
                (includeRecipeIds request) (excludeRecipeIds request) i of
           Inl e \<Rightarrow> Inl e
         | Inr (selectedDishes, i') \<Rightarrow>
             (let recommendedDishes = assignDishRoles selectedDishes preferences
              in Inr (\<lparr>dishes = recommendedDishes,
                       totalPrepTime = calculateTotalPrepTime recommendedDishes,
                       totalCookTime = calculateTotalCookTime recommendedDishes,
                       overallDifficulty = calculateOverallDifficulty recommendedDishes,
                       servings_comb = numberOfPeople_cp preferences,
                       nutritionalBalance = analyzeNutritionalBalance recommendedDishes,
                       flavorProfile = analyzeFlavorProfile recommendedDishes\<rparr>, i')))"

section \<open>The tools (recommendDishCombination.ts, recommendMealPlan.ts)\<close>

text \<open>The analysis without its two lists of sentences.  For no dishes the average cook
  time is \<^verbatim>\<open>0 / 0\<close>; the model is that of a combination with at least one dish.\<close>

record CombinationAnalysis =
  nutritionalScore :: rat
  flavorHarmony :: rat
  difficultyBalance :: rat
  timeEfficiency :: rat
  overallScore :: rat

definition analyzeCombination :: "DishCombination \<Rightarrow> CombinationAnalysis" where
  "analyzeCombination combination =
     (let ds = dishes combination;
          balance = nutritionalBalance combination;
          nutritional =
            (if hasProtein balance then 3 else 0) + (if hasVegetables balance then 3 else 0)
            + (if hasCarbs balance then 2 else 0) + (if isBalanced balance then 2 else 0);
          harmony = min 10 (of_nat (length (flavorProfile combination)) * 2);
          difficulties = map (\<lambda>d. difficulty (dishRecipe d)) ds;
          difficultyVariety = length (remdups difficulties);
          dBalance = max 1 (11 - of_nat difficultyVariety * 2);
          avgCookTime =
            of_nat (foldl (\<lambda>sum dish. sum + parseTimeInMinutes (cookTime (dishRecipe dish))) 0 ds)
              / of_nat (length ds);
          efficiency = max 1 (min 10 (10 - avgCookTime / 10));
          overall = mathRound ((nutritional + harmony + dBalance + efficiency) / 4)
      in \<lparr>nutritionalScore = nutritional, flavorHarmony = harmony,
          difficultyBalance = dBalance, timeEfficiency = efficiency,
          overallScore = overall\<rparr>)"

datatype ErrorKind =
    InvalidMealPlanPreferences | NoRecipesAvailable | FailedToGenerateMealPlan
  | InvalidDishCountConstraints | FailedToGenerateDishCombination

datatype 'a MCPResponse = Failure ErrorKind | Success 'a

record RecommendDishCombinationInput =
  request :: CombinationRequest
  includeAnalysis :: "bool option"

record DishCombinationResponse =
  combination :: DishCombination
  analysis :: "CombinationAnalysis option"

text \<open>The numeric bounds of the input schemas; everything else the schemas check is a
  matter of types.\<close>

definition inRange :: "rat \<Rightarrow> rat \<Rightarrow> rat option \<Rightarrow> bool" where
  "inRange lo hi x = (case x of None \<Rightarrow> True | Some v \<Rightarrow> lo \<le> v \<and> v \<le> hi)"

definition schemaValid_comb :: "RecommendDishCombinationInput \<Rightarrow> bool" where
  "schemaValid_comb input =
     (inRange 1 20 (Some (numberOfPeople_cp (preferences_cr (request input))))
      \<and> inRange 2 10 (maxDishes (request input))
      \<and> inRange 2 8 (minDishes (request input)))"

definition withDefault :: "'a option \<Rightarrow> 'a \<Rightarrow> 'a" where
  "withDefault x d = (case x of None \<Rightarrow> d | Some v \<Rightarrow> v)"

text \<open>
  The handler: whatever is thrown inside \<^verbatim>\<open>try\<close> is caught and reported as a failure.
  The result is the response and the number of draws after the call.
\<close>

definition handleRecommendDishCombination ::
  "randomSource \<Rightarrow> Recipe list \<Rightarrow> RecommendDishCombinationInput \<Rightarrow> nat
     \<Rightarrow> DishCombinationResponse MCPResponse \<times> nat" where
  "handleRecommendDishCombination rnd allRecipes input i =
     (if \<not> schemaValid_comb input then (Failure FailedToGenerateDishCombination, i)
      else
        let maxD = withDefault (maxDishes (request input)) 6;
            minD = withDefault (minDishes (request input)) 3
        in if minD > maxD then (Failure InvalidDishCountConstraints, i)
           else if allRecipes = [] then (Failure NoRecipesAvailable, i)
           else
             let combinationRequest =
                   (request input)\<lparr>maxDishes := Some maxD, minDishes := Some minD\<rparr>
             in case generateDishCombination rnd allRecipes combinationRequest i of
                  Inl (e, i') \<Rightarrow> (Failure FailedToGenerateDishCombination, i')
                | Inr (c, i') \<Rightarrow>
                    (Success \<lparr>combination = c,
                              analysis = (if withDefault (includeAnalysis input) True
                                          then Some (analyzeCombination c) else None)\<rparr>, i'))"

record RecommendMealPlanInput =
  preferences_in :: MealPlanPreferences
  startDate_in :: "jsstring option"
  planDuration :: "rat option"
  includeShoppingList :: "bool option"
  consolidateIngredients_in :: "bool option"

record MealPlanResponse =
  mealPlan :: WeeklyMealPlan
  totalRecipes :: nat
  shoppingList :: "ShoppingList option"

definition schemaValid_plan :: "RecommendMealPlanInput \<Rightarrow> bool" where
  "schemaValid_plan input =
     (inRange 1 20 (Some (numberOfPeople_mp (preferences_in input)))
      \<and> inRange 1 14 (planDuration input))"

definition handleRecommendMealPlan ::
  "(jsstring \<Rightarrow> jsstring \<Rightarrow> int) \<Rightarrow> (jsstring \<Rightarrow> int option) \<Rightarrow> int \<Rightarrow> randomSource
     \<Rightarrow> Recipe list \<Rightarrow> RecommendMealPlanInput \<Rightarrow> nat \<Rightarrow> MealPlanResponse MCPResponse \<times> nat" where
  "handleRecommendMealPlan localeCompare parseDate nextMonday rnd allRecipes input i =
     (if \<not> schemaValid_plan input then (Failure FailedToGenerateMealPlan, i)
      else
        let preferences = preferences_in input in
        if \<not> validateMealPlanPreferences preferences
        then (Failure InvalidMealPlanPreferences, i)
        else if allRecipes = [] then (Failure NoRecipesAvailable, i)
        else
          case generateWeeklyMealPlan parseDate nextMonday rnd allRecipes preferences
                 (startDate_in input) i of
            Inl (e, i') \<Rightarrow> (Failure FailedToGenerateMealPlan, i')
          | Inr (plan, i') \<Rightarrow>
              (Success
                 \<lparr>mealPlan = plan,
                  totalRecipes = length (concat (map meals (dailyPlans plan))),
                  shoppingList =
                    (if withDefault (includeShoppingList input) True
                     then Some (generateShoppingListFromMealPlan localeCompare plan
                                  \<lparr>numberOfPeople_sl = numberOfPeople_mp preferences,
                                   consolidateItems =
                                     Some (withDefault (consolidateIngredients_in input) True),
                                   includePriceEstimates = (budgetLevel preferences \<noteq> None),
                                   excludeCategories = None\<rparr>)
                     else None)\<rparr>, i'))"

section \<open>The shape of a numeric amount\<close>

text \<open>
  The words of the specification, "an amount of the form number, optional unit text":
  \<open>isNumeral\<close> is a decimal numeral, digits with an optional fraction; an amount of
  the numeric shape is such a numeral \<open>n\<close>, white space \<open>ws\<close> and a unit text \<open>u\<close>
  on one line.  The last conjuncts make the three parts unique: the unit does not begin
  with white space, and when no white space separates them the unit does not continue
  the numeral.
\<close>

definition startsWith :: "(nat \<Rightarrow> bool) \<Rightarrow> jsstring \<Rightarrow> bool" where
  "startsWith P s = (case s of [] \<Rightarrow> False | c # _ \<Rightarrow> P c)"

definition isNumeral :: "jsstring \<Rightarrow> bool" where
  "isNumeral n =
     (let ip = takeWhile isDigit n; r = dropWhile isDigit n in
      ip \<noteq> [] \<and> (r = [] \<or> (hd r = 46 \<and> tl r \<noteq> [] \<and> list_all isDigit (tl r))))"

definition numericShape :: "jsstring \<Rightarrow> jsstring \<Rightarrow> jsstring \<Rightarrow> bool" where
  "numericShape n ws u =
     (isNumeral n \<and> list_all isSpace ws \<and> \<not> list_ex isLineTerminator u
      \<and> \<not> startsWith isSpace u
      \<and> (ws = [] \<longrightarrow> \<not> startsWith isDigit u
            \<and> (list_all isDigit n \<longrightarrow> \<not> (startsWith (\<lambda>c. c = 46) u \<and> startsWith isDigit (tl u)))))"

section \<open>Example data\<close>

definition riceRecipe :: Recipe where
  "riceRecipe =
     \<lparr>recipeId = ascii ''r1'', recipeName = ascii ''rice'', category = Staple,
      difficulty = Easy, servings = 2,
      prepTime = ascii ''5'' @ minuteUnit, cookTime = ascii ''20'' @ minuteUnit,
      ingredients =
        [\<lparr>ingName = ascii ''rice'', amount = ascii ''200g'', ingNotes = None\<rparr>,
         \<lparr>ingName = ascii ''water'', amount = ascii ''2 cups'', ingNotes = None\<rparr>,
         \<lparr>ingName = ascii ''salt'', amount = [36866, 37327], ingNotes = None\<rparr>],
      tags = None, cookingMethods = Some [Boil], calories = Some 300\<rparr>"

definition porkRecipe :: Recipe where
  "porkRecipe =
     \<lparr>recipeId = ascii ''p1'', recipeName = ascii ''pork'', category = Meat,
      difficulty = Medium, servings = 2,
      prepTime = ascii ''10'' @ minuteUnit, cookTime = ascii ''1'' @ hourUnit,
      ingredients =
        [\<lparr>ingName = [29482, 32905], amount = ascii ''500g'', ingNotes = None\<rparr>,
         \<lparr>ingName = ascii ''rice'', amount = ascii ''2 cups'', ingNotes = None\<rparr>],
      tags = Some [[39321]], cookingMethods = Some [Stew], calories = Some 600\<rparr>"

definition greensRecipe :: Recipe where
  "greensRecipe =
     \<lparr>recipeId = ascii ''g1'', recipeName = ascii ''greens'', category = Vegetarian,
      difficulty = Easy, servings = 2,
      prepTime = ascii ''5'' @ minuteUnit, cookTime = ascii ''5'' @ minuteUnit,
      ingredients =
        [\<lparr>ingName = [33760, 33756], amount = ascii ''300g'', ingNotes = None\<rparr>],
      tags = Some [[28165, 28129]], cookingMethods = Some [StirFry], calories = Some 80\<rparr>"

definition soupRecipe :: Recipe where
  "soupRecipe =
     \<lparr>recipeId = ascii ''s1'', recipeName = ascii ''soup'', category = Soup,
      difficulty = Easy, servings = 4,
      prepTime = ascii ''10'' @ minuteUnit, cookTime = ascii ''30'' @ minuteUnit,
      ingredients =
        [\<lparr>ingName = [30058, 33540], amount = ascii ''2'', ingNotes = None\<rparr>,
         \<lparr>ingName = ascii ''rice'', amount = ascii ''100g'', ingNotes = None\<rparr>],
      tags = None, cookingMethods = Some [Boil], calories = None\<rparr>"

text \<open>A source of draws that always returns 0, a date parser that knows no date, and a
  stand-in for the collation that compares the first code units.\<close>

definition zeroSource :: randomSource where
  "zeroSource i = 0"

definition noDate :: "jsstring \<Rightarrow> int option" where
  "noDate s = None"

definition firstUnitCompare :: "jsstring \<Rightarrow> jsstring \<Rightarrow> int" where
  "firstUnitCompare a b = int (case a of [] \<Rightarrow> 0 | c # _ \<Rightarrow> c) - int (case b of [] \<Rightarrow> 0 | c # _ \<Rightarrow> c)"

definition vegetarianPreferences :: MealPlanPreferences where
  "vegetarianPreferences =
     \<lparr>numberOfPeople_mp = 2, dietaryRestrictions = Some [VegetarianOnly],
      preferredCategories = None, excludedCategories = None, budgetLevel = None,
      cookingSkillLevel = None\<rparr>"

definition plainPreferences :: CombinationPreferences where
  "plainPreferences =
     \<lparr>numberOfPeople_cp = 2, dietaryRestrictions_cp = None, cookingTime = None,
      skillLevel = None\<rparr>"

definition isFailure :: "'a MCPResponse \<Rightarrow> bool" where
  "isFailure r = (case r of Failure e \<Rightarrow> True | Success x \<Rightarrow> False)"

definition threeTwoInput :: RecommendDishCombinationInput where
  "threeTwoInput =
     \<lparr>request = \<lparr>preferences_cr = plainPreferences, excludeRecipeIds = None,
                  includeRecipeIds = None, maxDishes = Some 2, minDishes = Some 3\<rparr>,
      includeAnalysis = None\<rparr>"

definition vegetarianInput :: RecommendMealPlanInput where
  "vegetarianInput =
     \<lparr>preferences_in = vegetarianPreferences, startDate_in = None, planDuration = None,
      includeShoppingList = None, consolidateIngredients_in = None\<rparr>"

definition fourRecipes :: "Recipe list" where
  "fourRecipes = [porkRecipe, greensRecipe, soupRecipe, riceRecipe]"

text \<open>Three recipes that must be included, and at most two dishes.\<close>

definition tightRequest :: CombinationRequest where
  "tightRequest =
     \<lparr>preferences_cr = plainPreferences, excludeRecipeIds = None,
      includeRecipeIds = Some [ascii ''p1'', ascii ''g1'', ascii ''s1''],
      maxDishes = Some 2, minDishes = Some 2\<rparr>"

text \<open>The meat recipe must be included and is excluded, for vegetarian diners and for
  diners without a restriction.\<close>

definition vegetarianIncludeRequest :: CombinationRequest where
  "vegetarianIncludeRequest =
     \<lparr>preferences_cr = plainPreferences\<lparr>dietaryRestrictions_cp := Some [VegetarianOnly]\<rparr>,
      excludeRecipeIds = Some [ascii ''p1''], includeRecipeIds = Some [ascii ''p1''],
      maxDishes = None, minDishes = None\<rparr>"

definition includeExcludeRequest :: CombinationRequest where
  "includeExcludeRequest =
     \<lparr>preferences_cr = plainPreferences,
      excludeRecipeIds = Some [ascii ''p1''], includeRecipeIds = Some [ascii ''p1''],
      maxDishes = None, minDishes = None\<rparr>"

definition twoThreeRequest :: CombinationRequest where
  "twoThreeRequest =
     \<lparr>preferences_cr = plainPreferences, excludeRecipeIds = None, includeRecipeIds = None,
      maxDishes = Some 3, minDishes = Some 2\<rparr>"

text \<open>A second recipe with rice in grams and whole tomatoes, and a request for a
  consolidated shopping list for two.\<close>

definition congeeRecipe :: Recipe where
  "congeeRecipe =
     \<lparr>recipeId = ascii ''c1'', recipeName = ascii ''congee'', category = Staple,
      difficulty = Easy, servings = 2,
      prepTime = ascii ''5'' @ minuteUnit, cookTime = ascii ''40'' @ minuteUnit,
      ingredients =
        [\<lparr>ingName = ascii ''rice'', amount = ascii ''150g'', ingNotes = None\<rparr>,
         \<lparr>ingName = [30058, 33540], amount = ascii ''1'', ingNotes = None\<rparr>],
      tags = None, cookingMethods = Some [Boil], calories = Some 200\<rparr>"

definition listForTwo :: ShoppingListRequest where
  "listForTwo =
     \<lparr>numberOfPeople_sl = 2, consolidateItems = None, includePriceEstimates = False,
      excludeCategories = None\<rparr>"

text \<open>A collation that is a linear order: the comparison of strings by code units.\<close>

fun codeUnitCompare :: "jsstring \<Rightarrow> jsstring \<Rightarrow> int" where
  "codeUnitCompare [] [] = 0"
| "codeUnitCompare [] (y # ys) = -1"
| "codeUnitCompare (x # xs) [] = 1"
| "codeUnitCompare (x # xs) (y # ys) =
     (if x < y then -1 else if y < x then 1 else codeUnitCompare xs ys)"

section \<open>Auxiliary predicates of the proofs\<close>

text \<open>Every meal pushed so far holds a recipe of the given list.\<close>

definition slotsFrom :: "Recipe list \<Rightarrow> PlannedMeal option list \<Rightarrow> bool" where
  "slotsFrom recipes ms = (\<forall>m. Some m \<in> set ms \<longrightarrow> recipe m \<in> set recipes)"

text \<open>
  The invariant of the two selection loops, for a list \<open>E\<close> of eligible recipes: the
  selected recipes have distinct identifiers, so have the available ones, no available
  recipe has the identifier of a selected one, and every eligible recipe is available
  or selected.
\<close>

definition selInv :: "Recipe list \<Rightarrow> Recipe list \<Rightarrow> Recipe list \<Rightarrow> bool" where
  "selInv E sel avail =
     (distinct (map recipeId sel) \<and> distinct (map recipeId avail)
      \<and> (\<forall>a \<in> set avail. recipeId a \<notin> recipeId ` set sel)
      \<and> (\<forall>r \<in> set E. r \<in> set avail \<or> r \<in> set sel))"

text \<open>The identifiers of an optional list of identifiers.\<close>

definition idsOf :: "jsstring list option \<Rightarrow> jsstring set" where
  "idsOf ids = (case ids of None \<Rightarrow> {} | Some xs \<Rightarrow> set xs)"

text \<open>A flag as a number.\<close>

definition flag :: "bool \<Rightarrow> rat" where
  "flag b = (if b then 1 else 0)"

text \<open>
  What a shopping list shows of its items: the category of the section, the name and
  the quantity of every item.
\<close>

definition itemQuantities :: "ShoppingList \<Rightarrow> (ShoppingCategory \<times> jsstring \<times> jsstring) list" where
  "itemQuantities sl =
     concat (map (\<lambda>s. map (\<lambda>it. (sectionCategory s, itemName it, quantity it)) (sectionItems s))
                 (sections sl))"

definition itemNames :: "ShoppingList \<Rightarrow> (ShoppingCategory \<times> jsstring) list" where
  "itemNames sl =
     concat (map (\<lambda>s. map (\<lambda>it. (sectionCategory s, itemName it)) (sectionItems s))
                 (sections sl))"

text \<open>
  The ingredients of a list of recipes in the order in which \<^verbatim>\<open>consolidateIngredients\<close>
  visits them, each with its recipe; the step of the consolidation for one of them; and
  its scaled amount.
\<close>

definition entries :: "Recipe list \<Rightarrow> (Recipe \<times> Ingredient) list" where
  "entries recipes = concat (map (\<lambda>r. map (Pair r) (ingredients r)) recipes)"

definition stepE ::
  "rat \<Rightarrow> (jsstring \<times> ShoppingItem) list \<Rightarrow> Recipe \<times> Ingredient
     \<Rightarrow> (jsstring \<times> ShoppingItem) list" where
  "stepE people m e = addIngredient True (people / servings (fst e)) (fst e) m (snd e)"

definition scaledAmount :: "rat \<Rightarrow> Recipe \<times> Ingredient \<Rightarrow> jsstring" where
  "scaledAmount people e =
     scaleIngredientAmount_shopping (amount (snd e)) (people / servings (fst e))"

text \<open>The quantity of an item after the amounts of a list have been combined into it,
  one after the other.\<close>

fun combineAll :: "jsstring option \<Rightarrow> jsstring list \<Rightarrow> jsstring option" where
  "combineAll q [] = q"
| "combineAll q (a # as) =
     combineAll (Some (case q of None \<Rightarrow> a | Some q' \<Rightarrow> combineQuantities q' a)) as"

text \<open>
  The recipes whose amounts combine without the fallback: every amount is numeric with
  a unit text that does not begin with a digit or a dot (so that the unit still follows
  the number once the white space between them is gone), and the amounts of ingredients
  of the same name have the same unit text.
\<close>

definition tidyUnit :: "jsstring \<Rightarrow> bool" where
  "tidyUnit u =
     (\<not> list_ex isLineTerminator u \<and> \<not> startsWith isSpace u \<and> \<not> startsWith isDigit u
      \<and> \<not> startsWith (\<lambda>c. c = 46) u)"

definition unitOf :: "jsstring \<Rightarrow> jsstring option" where
  "unitOf amt = map_option snd (numericMatch amt)"

definition uniformEntries :: "(Recipe \<times> Ingredient) list \<Rightarrow> bool" where
  "uniformEntries es =
     ((\<forall>e \<in> set es. case unitOf (amount (snd e)) of None \<Rightarrow> False | Some u \<Rightarrow> tidyUnit u)
      \<and> (\<forall>e \<in> set es. \<forall>e' \<in> set es.
            ingName (snd e) = ingName (snd e')
            \<longrightarrow> unitOf (amount (snd e)) = unitOf (amount (snd e'))))"

definition uniformAmounts :: "Recipe list \<Rightarrow> bool" where
  "uniformAmounts recipes = uniformEntries (entries recipes)"

text \<open>The scaled amount of an entry in hundredths.\<close>

definition centsOf :: "rat \<Rightarrow> Recipe \<times> Ingredient \<Rightarrow> nat" where
  "centsOf people e =
     (case numericMatch (amount (snd e)) of
        None \<Rightarrow> 0
      | Some (numStr, unit) \<Rightarrow>
          nat \<lfloor>parseFloat numStr * (people / servings (fst e)) * 100 + 1 / 2\<rfloor>)"

text \<open>Every item of the map stands under its name and in the category of its name.\<close>

definition wellNamed :: "(jsstring \<times> ShoppingItem) list \<Rightarrow> bool" where
  "wellNamed m = (\<forall>(k, it) \<in> set m. itemName it = k \<and> itemCategory it = categorizeIngredient k)"

text \<open>
  A collation that orders the strings linearly: of two strings one comes first, the
  order is transitive, and only equal strings come before each other.
\<close>

definition linearCollation :: "(jsstring \<Rightarrow> jsstring \<Rightarrow> int) \<Rightarrow> bool" where
  "linearCollation cmp =
     ((\<forall>a b. cmp a b \<le> 0 \<or> cmp b a \<le> 0)
      \<and> (\<forall>a b c. cmp a b \<le> 0 \<longrightarrow> cmp b c \<le> 0 \<longrightarrow> cmp a c \<le> 0)
      \<and> (\<forall>a b. cmp a b \<le> 0 \<longrightarrow> cmp b a \<le> 0 \<longrightarrow> a = b))"

section \<open>Properties of the matcher and of the printing of numbers\<close>

lemma takeWhile_stop:
  "list_all P xs \<Longrightarrow> \<not> startsWith P ys \<Longrightarrow> takeWhile P (xs @ ys) = xs"
  by (induction xs) (auto simp: startsWith_def split: list.splits)

lemma dropWhile_stop:
  "list_all P xs \<Longrightarrow> \<not> startsWith P ys \<Longrightarrow> dropWhile P (xs @ ys) = ys"
  by (induction xs) (auto simp: startsWith_def split: list.splits)

lemma space_not_digit: "isSpace c \<Longrightarrow> \<not> isDigit c"
  by (auto simp: isSpace_def isDigit_def)

lemma dot_not_digit [simp]: "\<not> isDigit 46" "\<not> isSpace 46"
  by (auto simp: isSpace_def isDigit_def)

lemma startsWith_append:
  "startsWith P (xs @ ys) = (if xs = [] then startsWith P ys else startsWith P xs)"
  by (cases xs) (auto simp: startsWith_def)

lemma startsWith_all_space_digit:
  "list_all isSpace ws \<Longrightarrow> ws \<noteq> [] \<Longrightarrow> \<not> startsWith isDigit ws"
  by (cases ws) (auto simp: startsWith_def space_not_digit)

lemma isNumeral_cases:
  "isNumeral n \<longleftrightarrow>
     (\<exists>ip. ip \<noteq> [] \<and> list_all isDigit ip \<and>
        (n = ip \<or> (\<exists>fp. fp \<noteq> [] \<and> list_all isDigit fp \<and> n = ip @ 46 # fp)))"
proof
  assume h: "isNumeral n"
  let ?ip = "takeWhile isDigit n" and ?r = "dropWhile isDigit n"
  have n: "n = ?ip @ ?r" by simp
  have ip: "?ip \<noteq> []" "list_all isDigit ?ip"
    using h by (auto simp: isNumeral_def Let_def list_all_iff dest: set_takeWhileD)
  show "\<exists>ip. ip \<noteq> [] \<and> list_all isDigit ip \<and>
        (n = ip \<or> (\<exists>fp. fp \<noteq> [] \<and> list_all isDigit fp \<and> n = ip @ 46 # fp))"
  proof (cases "?r = []")
    case True
    then have "n = ?ip" using n by (metis append_Nil2)
    with ip show ?thesis by metis
  next
    case False
    with h have r: "hd ?r = 46" "tl ?r \<noteq> []" "list_all isDigit (tl ?r)"
      by (auto simp: isNumeral_def Let_def)
    from False r(1) have "?r = 46 # tl ?r" by (cases ?r) auto
    with n have "n = ?ip @ 46 # tl ?r" by metis
    with ip r show ?thesis by blast
  qed
next
  assume "\<exists>ip. ip \<noteq> [] \<and> list_all isDigit ip \<and>
        (n = ip \<or> (\<exists>fp. fp \<noteq> [] \<and> list_all isDigit fp \<and> n = ip @ 46 # fp))"
  then obtain ip where ip: "ip \<noteq> []" "list_all isDigit ip"
    and c: "n = ip \<or> (\<exists>fp. fp \<noteq> [] \<and> list_all isDigit fp \<and> n = ip @ 46 # fp)" by blast
  from c show "isNumeral n"
  proof
    assume "n = ip"
    moreover have tw: "takeWhile isDigit ip = ip" "dropWhile isDigit ip = []"
      using ip by (simp_all add: list_all_iff)
    ultimately show ?thesis using ip(1)
      unfolding isNumeral_def Let_def by (simp only: tw) simp
  next
    assume "\<exists>fp. fp \<noteq> [] \<and> list_all isDigit fp \<and> n = ip @ 46 # fp"
    then obtain fp where fp: "fp \<noteq> []" "list_all isDigit fp" "n = ip @ 46 # fp" by blast
    with ip show ?thesis
      using takeWhile_stop [of isDigit ip "46 # fp"] dropWhile_stop [of isDigit ip "46 # fp"]
      by (simp add: isNumeral_def startsWith_def)
  qed
qed


lemma startsWith_takeWhile: "startsWith P xs \<longleftrightarrow> takeWhile P xs \<noteq> []"
  by (cases xs) (auto simp: startsWith_def)

lemma list_all_takeWhile [simp]: "list_all P (takeWhile P xs)"
  by (induction xs) auto

lemma numericMatch_shape:
  assumes "numericShape n ws u"
  shows "numericMatch (n @ ws @ u) = Some (n, u)"
proof -
  from assms have num: "isNumeral n" and ws: "list_all isSpace ws"
    and lt: "\<not> list_ex isLineTerminator u" and us: "\<not> startsWith isSpace u"
    and g1: "ws = [] \<Longrightarrow> \<not> startsWith isDigit u"
    and g2: "ws = [] \<Longrightarrow> list_all isDigit n \<Longrightarrow>
               \<not> (startsWith (\<lambda>c. c = 46) u \<and> startsWith isDigit (tl u))"
    by (auto simp: numericShape_def)
  have nd: "\<not> startsWith isDigit (ws @ u)"
    using g1 ws startsWith_all_space_digit [of ws] by (auto simp: startsWith_append)
  have dw: "dropWhile isSpace (ws @ u) = u"
    using ws us by (rule dropWhile_stop)
  from num obtain ip where ip: "ip \<noteq> []" "list_all isDigit ip"
    and c: "n = ip \<or> (\<exists>fp. fp \<noteq> [] \<and> list_all isDigit fp \<and> n = ip @ 46 # fp)"
    unfolding isNumeral_cases by blast
  from c show ?thesis
  proof
    assume n: "n = ip"
    have t: "takeWhile isDigit (ip @ ws @ u) = ip" "dropWhile isDigit (ip @ ws @ u) = ws @ u"
      using ip nd by (simp_all add: takeWhile_stop dropWhile_stop)
    have nofrac: "\<not> (c = 46 \<and> takeWhile isDigit r \<noteq> [])" if "ws @ u = c # r" for c r
    proof (cases "ws = []")
      case True
      with that have u: "u = c # r" by simp
      from g2 [OF True] ip n u show ?thesis
        by (auto simp: startsWith_def startsWith_takeWhile split: list.splits)
    next
      case False
      with that ws have "isSpace c" by (cases ws) auto
      then show ?thesis by auto
    qed
    show ?thesis
      using t ip lt dw nofrac unfolding n numericMatch_def
      by (auto simp: Let_def split: list.splits)
  next
    assume "\<exists>fp. fp \<noteq> [] \<and> list_all isDigit fp \<and> n = ip @ 46 # fp"
    then obtain fp where fp: "fp \<noteq> []" "list_all isDigit fp" and n: "n = ip @ 46 # fp"
      by blast
    have t: "takeWhile isDigit (ip @ 46 # fp @ ws @ u) = ip"
            "dropWhile isDigit (ip @ 46 # fp @ ws @ u) = 46 # fp @ ws @ u"
      using ip by (simp_all add: takeWhile_stop dropWhile_stop startsWith_def)
    have t2: "takeWhile isDigit (fp @ ws @ u) = fp" "dropWhile isDigit (fp @ ws @ u) = ws @ u"
      using fp nd by (simp_all add: takeWhile_stop dropWhile_stop)
    show ?thesis
      using t t2 ip fp lt dw unfolding n numericMatch_def
      by (simp add: Let_def)
  qed
qed


lemma showNat_digits: "list_all isDigit (showNat n)"
proof (induction n rule: showNat.induct)
  case (1 n)
  show ?case
  proof (cases "n < 10")
    case True
    then show ?thesis by (subst showNat.simps) (simp add: isDigit_def)
  next
    case False
    with 1 have "list_all isDigit (showNat (n div 10))" by simp
    with False show ?thesis
      by (subst showNat.simps) (simp add: isDigit_def)
  qed
qed

lemma showNat_nonempty: "showNat n \<noteq> []"
  by (subst showNat.simps) simp

lemma digitsToNat_snoc: "digitsToNat (ds @ [c]) = 10 * digitsToNat ds + (c - 48)"
  by (simp add: digitsToNat_def)

lemma digitsToNat_showNat: "digitsToNat (showNat n) = n"
proof (induction n rule: showNat.induct)
  case (1 n)
  show ?case
  proof (cases "n < 10")
    case True
    then show ?thesis by (subst showNat.simps) (simp add: digitsToNat_def)
  next
    case False
    with 1 have "digitsToNat (showNat (n div 10)) = n div 10" by simp
    with False show ?thesis
      by (subst showNat.simps) (simp add: digitsToNat_snoc)
  qed
qed

lemma digitsToNat_short:
  "digitsToNat [c] = c - 48" "digitsToNat [c, d] = 10 * (c - 48) + (d - 48)"
  by (simp_all add: digitsToNat_def)

lemma digit_bounds: "(k::nat) mod 100 div 10 \<le> 9" "(k::nat) mod 100 mod 10 \<le> 9"
proof -
  have "k mod 100 < 10 * 10" by simp
  then have "k mod 100 div 10 < 10" by (rule less_mult_imp_div_less)
  then show "k mod 100 div 10 \<le> 9" by simp
  have "k mod 100 mod 10 < 10" by simp
  then show "k mod 100 mod 10 \<le> 9" by linarith
qed

lemma mathRound_of_nat: "mathRound (of_nat k) = of_nat k"
proof -
  have "\<lfloor>(of_nat k :: rat) + 1 / 2\<rfloor> = int k"
    by (simp add: floor_eq_iff)
  then show ?thesis by (simp add: mathRound_def)
qed

lemma parseFloat_int:
  assumes "list_all isDigit ip"
  shows "parseFloat ip = of_nat (digitsToNat ip)"
proof -
  have t: "takeWhile isDigit ip = ip" "dropWhile isDigit ip = []"
    using assms by (simp_all add: list_all_iff)
  show ?thesis unfolding parseFloat_def Let_def t by (simp add: digitsToNat_def)
qed

lemma parseFloat_frac:
  assumes "list_all isDigit ip" "list_all isDigit fp"
  shows "parseFloat (ip @ 46 # fp) =
           of_nat (digitsToNat ip) + of_nat (digitsToNat fp) / 10 ^ length fp"
proof -
  have t: "takeWhile isDigit (ip @ 46 # fp) = ip" "dropWhile isDigit (ip @ 46 # fp) = 46 # fp"
    using assms(1) by (simp_all add: takeWhile_stop dropWhile_stop startsWith_def)
  have t2: "takeWhile isDigit fp = fp" using assms(2) by (simp add: list_all_iff)
  show ?thesis unfolding parseFloat_def Let_def t
    by (simp del: takeWhile_eq_all_conv add: t2)
qed

lemma numToString_hundredths:
  "numToString (of_nat k / 100) =
     showNat (k div 100) @
       (if k mod 100 = 0 then []
        else if k mod 100 mod 10 = 0 then [46, 48 + k mod 100 div 10]
        else [46, 48 + k mod 100 div 10, 48 + k mod 100 mod 10])"
proof -
  have "nat \<lfloor>(of_nat k / 100 :: rat) * 100\<rfloor> = k" by simp
  then show ?thesis unfolding numToString_def Let_def by (simp only:)
qed

lemma parseFloat_numToString: "parseFloat (numToString (of_nat k / 100)) = of_nat k / 100"
proof -
  let ?a = "k div 100" and ?f = "k mod 100"
  have k: "(of_nat k :: rat) = of_nat ?a * 100 + of_nat ?f"
    by (metis div_mod_decomp of_nat_add of_nat_mult of_nat_numeral)
  have f: "(of_nat ?f :: rat) = of_nat (?f div 10) * 10 + of_nat (?f mod 10)"
    by (metis div_mod_decomp of_nat_add of_nat_mult of_nat_numeral)
  note d = showNat_digits [of ?a]
  consider "?f = 0" | "?f \<noteq> 0" "?f mod 10 = 0" | "?f \<noteq> 0" "?f mod 10 \<noteq> 0" by blast
  then show ?thesis
  proof cases
    case 1
    then have "numToString (of_nat k / 100) = showNat ?a"
      by (simp add: numToString_hundredths)
    then have "parseFloat (numToString (of_nat k / 100)) = of_nat ?a"
      using parseFloat_int [OF d] by (simp add: digitsToNat_showNat)
    also have "\<dots> = of_nat k / 100" using 1 k by simp
    finally show ?thesis .
  next
    case 2
    then have e: "numToString (of_nat k / 100) = showNat ?a @ 46 # [48 + ?f div 10]"
      by (simp add: numToString_hundredths)
    have "list_all isDigit [48 + ?f div 10]" by (simp add: isDigit_def digit_bounds) 
    from parseFloat_frac [OF d this]
    have "parseFloat (numToString (of_nat k / 100)) = of_nat ?a + of_nat (?f div 10) / 10"
      unfolding e by (simp add: digitsToNat_showNat digitsToNat_short)
    also have "\<dots> = of_nat k / 100" using 2 k f by simp
    finally show ?thesis .
  next
    case 3
    then have e: "numToString (of_nat k / 100) =
        showNat ?a @ 46 # [48 + ?f div 10, 48 + ?f mod 10]"
      by (simp add: numToString_hundredths)
    have "list_all isDigit [48 + ?f div 10, 48 + ?f mod 10]" by (simp add: isDigit_def digit_bounds) 
    from parseFloat_frac [OF d this]
    have "parseFloat (numToString (of_nat k / 100)) = of_nat ?a + of_nat ?f / 100"
      unfolding e by (simp add: digitsToNat_showNat digitsToNat_short)
    also have "\<dots> = of_nat k / 100" using k by simp
    finally show ?thesis .
  qed
qed

lemma isNumeral_numToString: "isNumeral (numToString x)"
proof -
  define k where "k = nat \<lfloor>x * 100\<rfloor>"
  let ?a = "k div 100" and ?f = "k mod 100"
  have a: "showNat ?a \<noteq> []" "list_all isDigit (showNat ?a)"
    by (simp_all add: showNat_nonempty showNat_digits)
  consider "?f = 0" | "?f \<noteq> 0" "?f mod 10 = 0" | "?f \<noteq> 0" "?f mod 10 \<noteq> 0" by blast
  then show ?thesis
  proof cases
    case 1
    then have "numToString x = showNat ?a" by (simp add: numToString_def Let_def k_def)
    with a show ?thesis unfolding isNumeral_cases by metis
  next
    case 2
    then have "numToString x = showNat ?a @ 46 # [48 + ?f div 10]"
      by (simp add: numToString_def Let_def k_def)
    moreover have "list_all isDigit [48 + ?f div 10]" by (simp add: isDigit_def digit_bounds)
    ultimately show ?thesis unfolding isNumeral_cases using a by blast
  next
    case 3
    then have "numToString x = showNat ?a @ 46 # [48 + ?f div 10, 48 + ?f mod 10]"
      by (simp add: numToString_def Let_def k_def)
    moreover have "list_all isDigit [48 + ?f div 10, 48 + ?f mod 10]" by (simp add: isDigit_def digit_bounds)
    ultimately show ?thesis unfolding isNumeral_cases using a by blast
  qed
qed

section \<open>Scaling a recipe\<close>






section \<open>Combining quantities\<close>




section \<open>Validation of the dish counts\<close>

text \<open>
  Claim C4.  When the minimum number of dishes of a request (3 when absent) is greater
  than the maximum (6 when absent), \<^verbatim>\<open>handleRecommendDishCombination\<close> returns a
  failure: the failure for invalid dish counts when the input passes the schema, the
  failure of the schema otherwise.  The result does not depend on the source of draws,
  and the number of draws after the call is the number before it: nothing is selected.
\<close>

theorem dishCount_validation:
  assumes "withDefault (minDishes (request input)) 3 > withDefault (maxDishes (request input)) 6"
  shows "handleRecommendDishCombination rnd allRecipes input i
           = (Failure (if schemaValid_comb input then InvalidDishCountConstraints
                       else FailedToGenerateDishCombination), i)"
  using assms by (simp add: handleRecommendDishCombination_def Let_def)

text \<open>The theorem at a minimum of 3 and a maximum of 2.\<close>

theorem dishCount_validation_witness:
  "withDefault (minDishes (request threeTwoInput)) 3
     > withDefault (maxDishes (request threeTwoInput)) 6
   \<and> handleRecommendDishCombination zeroSource [porkRecipe, greensRecipe] threeTwoInput 5
       = (Failure InvalidDishCountConstraints, 5)"
proof -
  have h: "withDefault (minDishes (request threeTwoInput)) 3
     > withDefault (maxDishes (request threeTwoInput)) 6" by code_simp
  have v: "schemaValid_comb threeTwoInput" by code_simp
  from dishCount_validation [OF h, of zeroSource "[porkRecipe, greensRecipe]" 5] v h
  show ?thesis by simp
qed

section \<open>Weekly meal plans\<close>

lemma selectRandomRecipe_mem:
  assumes "selectRandomRecipe xs r = Some x"
  shows "x \<in> set xs"
proof -
  define k where "k = \<lfloor>r * of_nat (length xs)\<rfloor>"
  from assms have "0 \<le> k \<and> k < int (length xs) \<and> x = xs ! nat k"
    unfolding selectRandomRecipe_def Let_def k_def [symmetric]
    by (simp split: if_splits)
  moreover from this have "nat k < length xs" by linarith
  ultimately show ?thesis by simp
qed

lemma selectRandomRecipe_unit:
  assumes "0 \<le> r" "r < 1" "xs \<noteq> []"
  shows "\<exists>x. selectRandomRecipe xs r = Some x"
proof -
  define k where "k = \<lfloor>r * of_nat (length xs)\<rfloor>"
  have n: "(0::rat) < of_nat (length xs)" using assms(3) by simp
  have "0 \<le> r * of_nat (length xs)" using assms(1) by simp
  then have k0: "0 \<le> k" unfolding k_def by simp
  have "r * of_nat (length xs) < 1 * of_nat (length xs)"
    using assms(2) n by (rule mult_strict_right_mono)
  then have "r * of_nat (length xs) < of_int (int (length xs))" by simp
  then have k1: "k < int (length xs)" unfolding k_def by (simp only: floor_less_iff)
  show ?thesis
    unfolding selectRandomRecipe_def Let_def k_def [symmetric] using k0 k1 by simp
qed

lemma those_Some_map: "those xs = Some ys \<Longrightarrow> xs = map Some ys"
  by (induction xs arbitrary: ys) (auto split: option.splits)

lemma those_all_Some: "None \<notin> set xs \<Longrightarrow> \<exists>ys. those xs = Some ys"
proof (induction xs)
  case Nil
  then show ?case by simp
next
  case (Cons a xs)
  then obtain y ys where "a = Some y" "those xs = Some ys" by (cases a) auto
  then show ?case by simp
qed

lemma planSlot_from:
  assumes "set candidates \<subseteq> set recipes" "slotsFrom recipes (fst st)"
  shows "slotsFrom recipes (fst (planSlot rnd slot candidates people st))"
proof (cases st)
  case (Pair ms i)
  have "recipe m \<in> set recipes"
    if "Some m = map_option (\<lambda>r. \<lparr>mealType = slot, recipe = r, servings_meal = people\<rparr>)
                   (selectRandomRecipe candidates (rnd i))" for m
  proof -
    from that obtain r where "selectRandomRecipe candidates (rnd i) = Some r" "recipe m = r"
      by (cases "selectRandomRecipe candidates (rnd i)") auto
    with selectRandomRecipe_mem assms(1) show ?thesis by blast
  qed
  with Pair assms(2) show ?thesis
    by (auto simp: planSlot_def slotsFrom_def)
qed

lemma planSlot_Some:
  assumes "unitInterval rnd" "None \<notin> set (fst st)"
  shows "None \<notin> set (fst (planSlot rnd slot candidates people st))"
proof (cases st)
  case (Pair ms i)
  show ?thesis
  proof (cases "candidates = []")
    case True
    with Pair assms show ?thesis by (simp add: planSlot_def)
  next
    case False
    from assms(1) have "0 \<le> rnd i" "rnd i < 1" by (simp_all add: unitInterval_def)
    from selectRandomRecipe_unit [OF this False]
    obtain x where "selectRandomRecipe candidates (rnd i) = Some x" by blast
    with Pair False assms(2) show ?thesis by (simp add: planSlot_def)
  qed
qed

lemma generateDailyMealPlan_recipes:
  assumes "generateDailyMealPlan rnd recipes preferences d dt i = Inr (dp, i')"
  shows "\<forall>m \<in> set (meals dp). recipe m \<in> set recipes"
proof -
  let ?b = "breakfastRecipes recipes" and ?l = "lunchRecipes recipes"
    and ?d = "dinnerRecipes recipes"
  let ?p = "numberOfPeople_mp preferences"
  let ?st3 = "planSlot rnd Dinner ?d ?p (planSlot rnd Lunch ?l ?p
                (planSlot rnd BreakfastMeal ?b ?p ([], i)))"
  have "slotsFrom recipes (fst (([], i) :: PlannedMeal option list \<times> nat))"
    by (simp add: slotsFrom_def)
  then have "slotsFrom recipes (fst ?st3)"
    by (intro planSlot_from) (auto simp: breakfastRecipes_def lunchRecipes_def dinnerRecipes_def)
  moreover from assms have "those (fst ?st3) = Some (meals dp)"
    by (cases "those (fst ?st3)") (auto simp: generateDailyMealPlan_def Let_def)
  then have "fst ?st3 = map Some (meals dp)" by (rule those_Some_map)
  ultimately show ?thesis by (auto simp: slotsFrom_def)
qed

lemma generateDailyMealPlan_total:
  assumes "unitInterval rnd"
  shows "\<exists>dp i'. generateDailyMealPlan rnd recipes preferences d dt i = Inr (dp, i')"
proof -
  let ?b = "breakfastRecipes recipes" and ?l = "lunchRecipes recipes"
    and ?d = "dinnerRecipes recipes"
  let ?p = "numberOfPeople_mp preferences"
  let ?st3 = "planSlot rnd Dinner ?d ?p (planSlot rnd Lunch ?l ?p
                (planSlot rnd BreakfastMeal ?b ?p ([], i)))"
  have "None \<notin> set (fst (([], i) :: PlannedMeal option list \<times> nat))" by simp
  then have "None \<notin> set (fst ?st3)"
    by (intro planSlot_Some assms)
  then obtain ms where "those (fst ?st3) = Some ms" using those_all_Some by blast
  then show ?thesis by (simp add: generateDailyMealPlan_def Let_def)
qed

lemma weekLoop_props:
  assumes "weekLoop rnd recipes preferences s ks (plans, i) = Inr (plans', i')"
  shows "length plans' = length plans + length ks
    \<and> (\<forall>d \<in> set plans'. d \<in> set plans \<or> (\<forall>m \<in> set (meals d). recipe m \<in> set recipes))"
  using assms
proof (induction ks arbitrary: plans i)
  case Nil
  then show ?case by simp
next
  case (Cons k ks)
  from Cons.prems obtain dp j where
    g: "generateDailyMealPlan rnd recipes preferences (daysOfWeek ! k) (s + int k) i = Inr (dp, j)"
    and w: "weekLoop rnd recipes preferences s ks (plans @ [dp], j) = Inr (plans', i')"
    by (auto split: sum.splits)
  from Cons.IH [OF w] generateDailyMealPlan_recipes [OF g]
  show ?case by auto
qed

lemma weekLoop_total:
  assumes "unitInterval rnd"
  shows "\<exists>plans' i'. weekLoop rnd recipes preferences s ks (plans, i) = Inr (plans', i')"
proof (induction ks arbitrary: plans i)
  case Nil
  then show ?case by simp
next
  case (Cons k ks)
  from generateDailyMealPlan_total [OF assms]
  obtain dp j where
    "generateDailyMealPlan rnd recipes preferences (daysOfWeek ! k) (s + int k) i = Inr (dp, j)"
    by blast
  with Cons.IH [of "plans @ [dp]" j] show ?case by simp
qed

text \<open>
  Claim C6.  A weekly plan returned by \<^verbatim>\<open>generateWeeklyMealPlan\<close> has seven daily plans,
  carries the preferences it was generated from, and every meal of every day holds a
  recipe of the list that \<^verbatim>\<open>filterRecipesByPreferences\<close> returns for these preferences.
  A plan is returned whenever the start date is valid and the draws lie in \<open>[0, 1)\<close>.
  The same holds for the plan in a successful response of the tool, whatever the
  requested duration of the plan.
\<close>

theorem weeklyPlan_spec:
  "(generateWeeklyMealPlan parseDate nextMonday rnd recipes preferences startDateArg i
       = Inr (plan, i') \<longrightarrow>
      length (dailyPlans plan) = 7
      \<and> preferences_plan plan = preferences
      \<and> (\<forall>d \<in> set (dailyPlans plan). \<forall>m \<in> set (meals d).
            recipe m \<in> set (filterRecipesByPreferences recipes (preferences_plan plan))))
   \<and> (unitInterval rnd \<and> resolveStart parseDate nextMonday startDateArg \<noteq> None \<longrightarrow>
        (\<exists>p j. generateWeeklyMealPlan parseDate nextMonday rnd recipes preferences startDateArg i
                 = Inr (p, j)))
   \<and> (fst (handleRecommendMealPlan localeCompare parseDate nextMonday rnd recipes input i)
         = Success response \<longrightarrow>
        length (dailyPlans (mealPlan response)) = 7
        \<and> (\<forall>d \<in> set (dailyPlans (mealPlan response)). \<forall>m \<in> set (meals d).
              recipe m \<in> set (filterRecipesByPreferences recipes
                                 (preferences_plan (mealPlan response)))))"
proof -
  have gen: "length (dailyPlans p) = 7 \<and> preferences_plan p = prefs
      \<and> (\<forall>d \<in> set (dailyPlans p). \<forall>m \<in> set (meals d).
            recipe m \<in> set (filterRecipesByPreferences recipes (preferences_plan p)))"
    if "generateWeeklyMealPlan parseDate nextMonday rnd recipes prefs sd i = Inr (p, j)"
    for p prefs sd j
  proof -
    from that obtain s plans where
      w: "weekLoop rnd (filterRecipesByPreferences recipes prefs) prefs s [0..<7] ([], i)
            = Inr (plans, j)"
      and p: "p = \<lparr>startDate = s, endDate = s + 6, preferences_plan = prefs,
                   dailyPlans = plans\<rparr>"
      by (auto simp: generateWeeklyMealPlan_def Let_def split: option.splits sum.splits)
    from weekLoop_props [OF w] show ?thesis unfolding p by simp
  qed
  have tot: "\<exists>p j. generateWeeklyMealPlan parseDate nextMonday rnd recipes preferences
                      startDateArg i = Inr (p, j)"
    if "unitInterval rnd" "resolveStart parseDate nextMonday startDateArg \<noteq> None"
  proof -
    from that(2) obtain s where s: "resolveStart parseDate nextMonday startDateArg = Some s"
      by blast
    from weekLoop_total [OF that(1)] obtain plans j where
      "weekLoop rnd (filterRecipesByPreferences recipes preferences) preferences s [0..<7] ([], i)
         = Inr (plans, j)" by blast
    with s show ?thesis by (simp add: generateWeeklyMealPlan_def Let_def)
  qed
  have han: "length (dailyPlans (mealPlan response)) = 7
        \<and> (\<forall>d \<in> set (dailyPlans (mealPlan response)). \<forall>m \<in> set (meals d).
              recipe m \<in> set (filterRecipesByPreferences recipes
                                 (preferences_plan (mealPlan response))))"
    if "fst (handleRecommendMealPlan localeCompare parseDate nextMonday rnd recipes input i)
         = Success response"
  proof -
    from that obtain p j where
      "generateWeeklyMealPlan parseDate nextMonday rnd recipes (preferences_in input)
         (startDate_in input) i = Inr (p, j)" and "mealPlan response = p"
      by (auto simp: handleRecommendMealPlan_def Let_def split: if_splits sum.splits)
    with gen show ?thesis by blast
  qed
  from gen tot han show ?thesis by blast
qed

lemma unitInterval_zeroSource: "unitInterval zeroSource"
  by (simp add: unitInterval_def zeroSource_def)

text \<open>The theorem at a catalog of two recipes, one of them meat, with the vegetarian
  restriction, the default start date and the source of draws that is always 0.\<close>

theorem weeklyPlan_spec_witness:
  "unitInterval zeroSource \<and> resolveStart noDate 3 None \<noteq> None
   \<and> generateWeeklyMealPlan noDate 3 zeroSource [porkRecipe, greensRecipe]
         vegetarianPreferences None 0
       = Inr (projr (generateWeeklyMealPlan noDate 3 zeroSource [porkRecipe, greensRecipe]
                       vegetarianPreferences None 0))
   \<and> length (dailyPlans (fst (projr (generateWeeklyMealPlan noDate 3 zeroSource
         [porkRecipe, greensRecipe] vegetarianPreferences None 0)))) = 7
   \<and> recipe (hd (meals (hd (dailyPlans (fst (projr (generateWeeklyMealPlan noDate 3 zeroSource
         [porkRecipe, greensRecipe] vegetarianPreferences None 0)))))))
       \<in> set (filterRecipesByPreferences [porkRecipe, greensRecipe] vegetarianPreferences)"
proof -
  let ?g = "generateWeeklyMealPlan noDate 3 zeroSource [porkRecipe, greensRecipe]
              vegetarianPreferences None 0"
  have h: "unitInterval zeroSource \<and> resolveStart noDate 3 None \<noteq> None"
    by (simp add: unitInterval_zeroSource resolveStart_def)
  note w = weeklyPlan_spec [where parseDate = noDate and nextMonday = 3 and rnd = zeroSource
      and recipes = "[porkRecipe, greensRecipe]" and preferences = vegetarianPreferences
      and startDateArg = None and i = 0]
  from w [THEN conjunct2, THEN conjunct1, rule_format, OF h]
  obtain p j where g: "?g = Inr (p, j)" by blast
  from w [where plan = p and i' = j, THEN conjunct1, rule_format, OF g]
  have l: "length (dailyPlans p) = 7"
    and m: "\<forall>d \<in> set (dailyPlans p). \<forall>m \<in> set (meals d).
            recipe m \<in> set (filterRecipesByPreferences [porkRecipe, greensRecipe]
                               vegetarianPreferences)"
    by auto
  have ne: "dailyPlans p \<noteq> []" using l by auto
  have "meals (hd (dailyPlans (fst (projr ?g)))) \<noteq> []" by code_simp
  then have ne2: "meals (hd (dailyPlans p)) \<noteq> []" using g by simp
  from ne ne2 have "hd (dailyPlans p) \<in> set (dailyPlans p)"
    "hd (meals (hd (dailyPlans p))) \<in> set (meals (hd (dailyPlans p)))" by simp_all
  with m have "recipe (hd (meals (hd (dailyPlans p))))
       \<in> set (filterRecipesByPreferences [porkRecipe, greensRecipe] vegetarianPreferences)"
    by blast
  with h g l show ?thesis by simp
qed

section \<open>A filter that leaves no recipe\<close>

lemma generateDailyMealPlan_empty:
  "generateDailyMealPlan rnd [] preferences d dt i
     = Inr (\<lparr>day = d, date = dt, meals = [], totalCalories = 0\<rparr>, i)"
  by (simp add: generateDailyMealPlan_def planSlot_def breakfastRecipes_def lunchRecipes_def
      dinnerRecipes_def calculateDailyCalories_def)

lemma weekLoop_empty:
  "\<exists>plans'. weekLoop rnd [] preferences s ks (plans, i) = Inr (plans', i)
     \<and> length plans' = length plans + length ks
     \<and> (\<forall>d \<in> set plans'. d \<in> set plans \<or> meals d = [])"
proof (induction ks arbitrary: plans)
  case Nil
  then show ?case by simp
next
  case (Cons k ks)
  let ?dp = "\<lparr>day = daysOfWeek ! k, date = s + int k, meals = [], totalCalories = 0\<rparr>"
  from Cons.IH [of "plans @ [?dp]"] obtain plans' where
    w: "weekLoop rnd [] preferences s ks (plans @ [?dp], i) = Inr (plans', i)"
    and l: "length plans' = length (plans @ [?dp]) + length ks"
    and e: "\<forall>d \<in> set plans'. d \<in> set (plans @ [?dp]) \<or> meals d = []" by blast
  have "\<forall>d \<in> set plans'. d \<in> set plans \<or> meals d = []"
  proof
    fix d assume "d \<in> set plans'"
    with e have "d \<in> set plans \<or> d = ?dp \<or> meals d = []" by auto
    then show "d \<in> set plans \<or> meals d = []" by auto
  qed
  with w l show ?case by (simp add: generateDailyMealPlan_empty)
qed

lemma shoppingList_nil:
  "sections (generateShoppingListFromRecipes localeCompare [] req) = []
     \<and> totalItems (generateShoppingListFromRecipes localeCompare [] req) = 0"
  by (simp add: generateShoppingListFromRecipes_def
        consolidateIngredients_def groupItemsByCategory_def sortBy_def Let_def
        split: option.splits)

lemma shoppingList_no_meals:
  assumes "\<forall>d \<in> set (dailyPlans plan). meals d = []"
  shows "sections (generateShoppingListFromMealPlan localeCompare plan req) = []
     \<and> totalItems (generateShoppingListFromMealPlan localeCompare plan req) = 0"
proof -
  have c: "concat (map (\<lambda>d. map recipe (meals d)) (dailyPlans plan)) = []"
    using assms by simp
  show ?thesis
    unfolding generateShoppingListFromMealPlan_def Let_def c by (rule shoppingList_nil)
qed

text \<open>
  Claim C3 as stated fails: with a catalog that holds one meat recipe and the vegetarian
  restriction the filter returns no recipe, and the tool does not return a failure.
\<close>

theorem noEligible_counterexample:
  "filterRecipesByPreferences [porkRecipe] (preferences_in vegetarianInput) = []
   \<and> \<not> isFailure (fst (handleRecommendMealPlan firstUnitCompare noDate 3 zeroSource
                          [porkRecipe] vegetarianInput 0))"
  by code_simp

text \<open>
  Claim C3, amended.  Let the filter return no recipe for the preferences of an input
  that passes the schema.  For an empty catalog the tool returns the failure
  "no recipes available"; for a catalog that is not empty and an invalid start date it
  returns the failure of generation; and otherwise it returns a success, whose plan has
  seven daily plans without any meal and whose shopping list, when there is one, is
  empty.  No recipe is drawn in any of the three cases.  The tool returns a response in
  every case: what is thrown inside is caught and returned as a failure.
\<close>

theorem noEligible_amended:
  assumes "filterRecipesByPreferences allRecipes (preferences_in input) = []"
    and "schemaValid_plan input"
  shows "(allRecipes = [] \<longrightarrow>
            handleRecommendMealPlan localeCompare parseDate nextMonday rnd allRecipes input i
              = (Failure NoRecipesAvailable, i))
    \<and> (allRecipes \<noteq> [] \<and> resolveStart parseDate nextMonday (startDate_in input) = None \<longrightarrow>
            handleRecommendMealPlan localeCompare parseDate nextMonday rnd allRecipes input i
              = (Failure FailedToGenerateMealPlan, i))
    \<and> (allRecipes \<noteq> [] \<and> resolveStart parseDate nextMonday (startDate_in input) \<noteq> None \<longrightarrow>
          (\<exists>response.
             handleRecommendMealPlan localeCompare parseDate nextMonday rnd allRecipes input i
               = (Success response, i)
             \<and> length (dailyPlans (mealPlan response)) = 7
             \<and> (\<forall>d \<in> set (dailyPlans (mealPlan response)). meals d = [])
             \<and> totalRecipes response = 0
             \<and> (\<forall>sl. shoppingList response = Some sl \<longrightarrow> sections sl = [] \<and> totalItems sl = 0)))"
proof -
  from assms(2) have v: "validateMealPlanPreferences (preferences_in input)"
    by (auto simp: schemaValid_plan_def inRange_def validateMealPlanPreferences_def)
  have a: "allRecipes = [] \<Longrightarrow>
      handleRecommendMealPlan localeCompare parseDate nextMonday rnd allRecipes input i
              = (Failure NoRecipesAvailable, i)"
    using assms(2) v by (simp add: handleRecommendMealPlan_def)
  have b: "handleRecommendMealPlan localeCompare parseDate nextMonday rnd allRecipes input i
              = (Failure FailedToGenerateMealPlan, i)"
    if "allRecipes \<noteq> []" "resolveStart parseDate nextMonday (startDate_in input) = None"
    using assms(2) v that
    by (simp add: handleRecommendMealPlan_def generateWeeklyMealPlan_def)
  have c: "\<exists>response.
             handleRecommendMealPlan localeCompare parseDate nextMonday rnd allRecipes input i
               = (Success response, i)
             \<and> length (dailyPlans (mealPlan response)) = 7
             \<and> (\<forall>d \<in> set (dailyPlans (mealPlan response)). meals d = [])
             \<and> totalRecipes response = 0
             \<and> (\<forall>sl. shoppingList response = Some sl \<longrightarrow> sections sl = [] \<and> totalItems sl = 0)"
    if ne: "allRecipes \<noteq> []"
      and st: "resolveStart parseDate nextMonday (startDate_in input) \<noteq> None"
  proof -
    from st obtain s where s: "resolveStart parseDate nextMonday (startDate_in input) = Some s"
      by blast
    from weekLoop_empty [of rnd "preferences_in input" s "[0..<7]" "[]" i]
    obtain plans where w: "weekLoop rnd [] (preferences_in input) s [0..<7] ([], i)
        = Inr (plans, i)" and l: "length plans = 7" and e: "\<forall>d \<in> set plans. meals d = []"
      by auto
    let ?plan = "\<lparr>startDate = s, endDate = s + 6, preferences_plan = preferences_in input,
                  dailyPlans = plans\<rparr>"
    have g: "generateWeeklyMealPlan parseDate nextMonday rnd allRecipes (preferences_in input)
               (startDate_in input) i = Inr (?plan, i)"
      using assms(1) s w by (simp add: generateWeeklyMealPlan_def)
    have e': "\<forall>d \<in> set (dailyPlans ?plan). meals d = []" using e by simp
    have t: "length (concat (map meals plans)) = 0" using e by simp
    let ?sl = "if withDefault (includeShoppingList input) True
               then Some (generateShoppingListFromMealPlan localeCompare ?plan
                            \<lparr>numberOfPeople_sl = numberOfPeople_mp (preferences_in input),
                             consolidateItems =
                               Some (withDefault (consolidateIngredients_in input) True),
                             includePriceEstimates =
                               (budgetLevel (preferences_in input) \<noteq> None),
                             excludeCategories = None\<rparr>)
               else None"
    let ?resp = "\<lparr>mealPlan = ?plan, totalRecipes = length (concat (map meals plans)),
                  shoppingList = ?sl\<rparr>"
    have h: "handleRecommendMealPlan localeCompare parseDate nextMonday rnd allRecipes input i
               = (Success ?resp, i)"
      using assms(2) v ne g by (simp add: handleRecommendMealPlan_def Let_def)
    have p1: "length (dailyPlans (mealPlan ?resp)) = 7" using l by simp
    have p2: "\<forall>d \<in> set (dailyPlans (mealPlan ?resp)). meals d = []" using e by simp
    have p3: "totalRecipes ?resp = 0" using t by simp
    have p4: "\<forall>sl. shoppingList ?resp = Some sl \<longrightarrow> sections sl = [] \<and> totalItems sl = 0"
      using shoppingList_no_meals [OF e'] by (auto split: if_splits)
    from h p1 p2 p3 p4 show ?thesis by blast
  qed
  from a b c show ?thesis by blast
qed


text \<open>The amended theorem at the catalog of the counterexample.\<close>

theorem noEligible_amended_witness:
  "filterRecipesByPreferences [porkRecipe] (preferences_in vegetarianInput) = []
   \<and> schemaValid_plan vegetarianInput
   \<and> (\<exists>response.
         handleRecommendMealPlan firstUnitCompare noDate 3 zeroSource [porkRecipe]
           vegetarianInput 0 = (Success response, 0)
         \<and> length (dailyPlans (mealPlan response)) = 7
         \<and> totalRecipes response = 0)"
proof -
  have h1: "filterRecipesByPreferences [porkRecipe] (preferences_in vegetarianInput) = []"
    by code_simp
  have h2: "schemaValid_plan vegetarianInput" by code_simp
  have h3: "[porkRecipe] \<noteq> []
     \<and> resolveStart noDate 3 (startDate_in vegetarianInput) \<noteq> None"
    by (simp add: resolveStart_def vegetarianInput_def)
  from noEligible_amended [OF h1 h2, THEN conjunct2, THEN conjunct2, rule_format, OF h3,
      of firstUnitCompare zeroSource 0]
  have "\<exists>response.
         handleRecommendMealPlan firstUnitCompare noDate 3 zeroSource [porkRecipe]
           vegetarianInput 0 = (Success response, 0)
         \<and> length (dailyPlans (mealPlan response)) = 7
         \<and> totalRecipes response = 0" by blast
  with h1 h2 show ?thesis by blast
qed

section \<open>Selection of dishes\<close>

lemma insortBy_head: "(\<forall>y \<in> set ys. cmp x y \<le> 0) \<Longrightarrow> insortBy cmp x ys = x # ys"
  by (cases ys) auto

lemma sortBy_sorted: "sorted_wrt (\<lambda>a b. cmp a b \<le> 0) xs \<Longrightarrow> sortBy cmp xs = xs"
proof (induction xs)
  case Nil
  then show ?case by (simp add: sortBy_def)
next
  case (Cons x xs)
  then have "sortBy cmp xs = xs" by simp
  then have "sortBy cmp (x # xs) = insortBy cmp x xs" by (simp add: sortBy_def)
  also have "\<dots> = x # xs" using Cons.prems by (intro insortBy_head) simp
  finally show ?case .
qed

lemma assignDishRoles_recipes: "map dishRecipe (assignDishRoles recipes preferences) = recipes"
proof -
  let ?f = "\<lambda>(r, index).
              let rl = determineDishRole r in
              \<lparr>dishRecipe = r, role = rl,
               dishPriority = determineDishPriority rl preferences,
               preparationOrder = int index + 1,
               servingOrder = getServingOrder rl\<rparr>"
  let ?z = "zip recipes [0..<length recipes]"
  have "sorted_wrt (\<lambda>a b. preparationOrder (?f a) - preparationOrder (?f b) \<le> 0) ?z"
    unfolding sorted_wrt_iff_nth_less by (auto simp: Let_def)
  then have "sorted_wrt (\<lambda>a b. preparationOrder a - preparationOrder b \<le> 0) (map ?f ?z)"
    by (simp only: sorted_wrt_map)
  then have "assignDishRoles recipes preferences = map ?f ?z"
    unfolding assignDishRoles_def Let_def by (rule sortBy_sorted)
  moreover have "dishRecipe \<circ> ?f = fst" by (auto simp: fun_eq_iff Let_def)
  then have "map dishRecipe (map ?f ?z) = map fst ?z" by (simp only: map_map)
  moreover have "map fst ?z = recipes" by (simp add: map_fst_zip)
  ultimately show ?thesis by (simp only:)
qed

lemma selInv_step:
  assumes "selInv E sel avail" "s \<in> set avail"
  shows "selInv E (sel @ [s]) (filter (\<lambda>r. recipeId r \<noteq> recipeId s) avail)"
proof -
  from assms(1) have d1: "distinct (map recipeId sel)" and d2: "distinct (map recipeId avail)"
    and dj: "\<forall>a \<in> set avail. recipeId a \<notin> recipeId ` set sel"
    and el: "\<forall>r \<in> set E. r \<in> set avail \<or> r \<in> set sel"
    by (auto simp: selInv_def)
  from dj assms(2) have "recipeId s \<notin> recipeId ` set sel" by blast
  with d1 have a: "distinct (map recipeId (sel @ [s]))" by simp
  from d2 have b: "distinct (map recipeId (filter (\<lambda>r. recipeId r \<noteq> recipeId s) avail))"
    by (rule distinct_map_filter)
  from dj have c: "\<forall>a \<in> set (filter (\<lambda>r. recipeId r \<noteq> recipeId s) avail).
      recipeId a \<notin> recipeId ` set (sel @ [s])" by auto
  from d2 have inj: "inj_on recipeId (set avail)" by (simp add: distinct_map)
  have d: "\<forall>r \<in> set E. r \<in> set (filter (\<lambda>r. recipeId r \<noteq> recipeId s) avail)
      \<or> r \<in> set (sel @ [s])"
  proof
    fix r assume "r \<in> set E"
    with el have "r \<in> set avail \<or> r \<in> set sel" by blast
    then show "r \<in> set (filter (\<lambda>r. recipeId r \<noteq> recipeId s) avail) \<or> r \<in> set (sel @ [s])"
    proof
      assume r: "r \<in> set avail"
      show ?thesis
      proof (cases "recipeId r = recipeId s")
        case True
        with inj r assms(2) have "r = s" by (auto dest: inj_onD)
        then show ?thesis by simp
      next
        case False
        with r show ?thesis by simp
      qed
    qed simp
  qed
  from a b c d show ?thesis unfolding selInv_def by blast
qed

lemma count_step:
  assumes "maxD \<in> \<int>" "\<not> maxD \<le> of_nat n"
  shows "of_nat (Suc n) \<le> (maxD :: rat)"
proof -
  from assms(1) obtain m where m: "maxD = of_int m" by (auto elim: Ints_cases)
  from assms(2) have "int n < m" unfolding m by (metis not_le of_int_less_iff of_int_of_nat_eq)
  then have "int (Suc n) \<le> m" by simp
  then show ?thesis unfolding m by (metis of_int_le_iff of_int_of_nat_eq)
qed

lemma categoryLoop_inv:
  assumes "categoryLoop rnd maxD cs (sel, used, avail, i) = Inr (sel', used', avail', i')"
    and "selInv E sel avail" and "maxD \<in> \<int>"
  shows "selInv E sel' avail' \<and> (\<exists>extra. sel' = sel @ extra)
     \<and> of_nat (length sel') \<le> max maxD (of_nat (length sel))"
  using assms(1,2)
proof (induction cs arbitrary: sel used avail i)
  case Nil
  then show ?case by simp
next
  case (Cons c cs)
  show ?case
  proof (cases "of_nat (length sel) \<ge> maxD")
    case True
    with Cons.prems show ?thesis by simp
  next
    case notfull: False
    show ?thesis
    proof (cases "c \<in> set used \<or> filter (\<lambda>r. category r = c) avail = []")
      case True
      with notfull Cons.prems have
        "categoryLoop rnd maxD cs (sel, used, avail, i) = Inr (sel', used', avail', i')"
        by (cases "c \<in> set used") (auto simp: Let_def)
      from Cons.IH [OF this Cons.prems(2)] show ?thesis .
    next
      case False
      let ?cr = "filter (\<lambda>r. category r = c) avail"
      from False notfull Cons.prems(1) obtain s where
        s: "selectRandomRecipe ?cr (rnd i) = Some s"
        and rec: "categoryLoop rnd maxD cs
            (sel @ [s], used @ [c], filter (\<lambda>r. recipeId r \<noteq> recipeId s) avail, Suc i)
              = Inr (sel', used', avail', i')"
        by (auto simp: Let_def split: option.splits)
      from selectRandomRecipe_mem [OF s] have mem: "s \<in> set avail" by simp
      from Cons.IH [OF rec selInv_step [OF Cons.prems(2) mem]]
      have inv: "selInv E sel' avail'" and ex: "\<exists>extra. sel' = (sel @ [s]) @ extra"
        and le: "of_nat (length sel') \<le> max maxD (of_nat (length (sel @ [s])))"
        by blast+
      from count_step [OF assms(3) notfull] have "of_nat (length (sel @ [s])) \<le> maxD" by simp
      with le have "of_nat (length sel') \<le> max maxD (of_nat (length sel))" by simp
      moreover from ex have "\<exists>extra. sel' = sel @ extra" by auto
      ultimately show ?thesis using inv by blast
    qed
  qed
qed

lemma categoryLoop_total:
  assumes "unitInterval rnd"
  shows "\<exists>st'. categoryLoop rnd maxD cs (sel, used, avail, i) = Inr st'"
proof (induction cs arbitrary: sel used avail i)
  case Nil
  then show ?case by simp
next
  case (Cons c cs)
  show ?case
  proof (cases "filter (\<lambda>r. category r = c) avail = []")
    case True
    with Cons.IH show ?thesis by (simp add: Let_def)
  next
    case False
    from assms have "0 \<le> rnd i" "rnd i < 1" by (simp_all add: unitInterval_def)
    from selectRandomRecipe_unit [OF this False] obtain s where
      "selectRandomRecipe (filter (\<lambda>r. category r = c) avail) (rnd i) = Some s" by blast
    with False Cons.IH show ?thesis by (simp add: Let_def)
  qed
qed

lemma fillRemaining_inv:
  assumes "fillRemaining rnd b (sel, avail, i) = Inr (sel', avail', i')"
    and "selInv E sel avail" and "b \<le> B" and "B \<in> \<int>"
  shows "selInv E sel' avail' \<and> (\<exists>extra. sel' = sel @ extra)
     \<and> of_nat (length sel') \<le> max B (of_nat (length sel))
     \<and> (b \<le> of_nat (length sel') \<or> avail' = [])"
  using assms(1,2,3)
proof (induction rnd b "(sel, avail, i)" arbitrary: sel avail i rule: fillRemaining.induct)
  case (1 rnd b sel avail i)
  note unfold = fillRemaining.simps [of rnd b sel avail i]
  show ?case
  proof (cases "of_nat (length sel) < b \<and> avail \<noteq> []")
    case False
    with "1.prems"(1) have "sel' = sel" "avail' = avail"
      unfolding unfold by simp_all
    with False "1.prems"(2) show ?thesis by auto
  next
    case True
    with "1.prems"(1) obtain s where s: "selectRandomRecipe avail (rnd i) = Some s"
      and rec: "fillRemaining rnd b
          (sel @ [s], filter (\<lambda>r. recipeId r \<noteq> recipeId s) avail, Suc i)
            = Inr (sel', avail', i')"
      unfolding unfold by (simp split: option.splits)
    from selectRandomRecipe_mem [OF s] have mem: "s \<in> set avail" .
    from "1.hyps" [OF True s rec selInv_step [OF "1.prems"(2) mem] "1.prems"(3)]
    have inv: "selInv E sel' avail'" and ex: "\<exists>extra. sel' = (sel @ [s]) @ extra"
      and le: "of_nat (length sel') \<le> max B (of_nat (length (sel @ [s])))"
      and fin: "b \<le> of_nat (length sel') \<or> avail' = []"
      by blast+
    from True "1.prems"(3) have "\<not> B \<le> of_nat (length sel)" by simp
    from count_step [OF \<open>B \<in> \<int>\<close> this] have "of_nat (length (sel @ [s])) \<le> B" by simp
    with le have "of_nat (length sel') \<le> max B (of_nat (length sel))" by simp
    moreover from ex have "\<exists>extra. sel' = sel @ extra" by auto
    ultimately show ?thesis using inv fin by blast
  qed
qed

lemma fillRemaining_total:
  assumes "unitInterval rnd"
  shows "\<exists>st'. fillRemaining rnd b (sel, avail, i) = Inr st'"
  using assms
proof (induction rnd b "(sel, avail, i)" arbitrary: sel avail i rule: fillRemaining.induct)
  case (1 rnd b sel avail i)
  note unfold = fillRemaining.simps [of rnd b sel avail i]
  show ?case
  proof (cases "of_nat (length sel) < b \<and> avail \<noteq> []")
    case False
    then show ?thesis unfolding unfold by (simp only: if_False) blast
  next
    case True
    from "1.prems" have "0 \<le> rnd i" "rnd i < 1" by (simp_all add: unitInterval_def)
    from selectRandomRecipe_unit [OF this] True obtain s where
      s: "selectRandomRecipe avail (rnd i) = Some s" by blast
    from "1.hyps" [OF True s "1.prems"] obtain st' where
      "fillRemaining rnd b (sel @ [s], filter (\<lambda>r. recipeId r \<noteq> recipeId s) avail, Suc i)
         = Inr st'" by blast
    with True s show ?thesis unfolding unfold by (simp del: split_paired_Ex)
  qed
qed

lemma selectDishes_props:
  assumes sel: "selectDishesForCombination rnd recipes maxD minD includeIds excludeIds i
                  = Inr (selected, i')"
    and dist: "distinct (map recipeId recipes)" and int: "maxD \<in> \<int>" and le: "minD \<le> maxD"
  shows "distinct (map recipeId selected)
    \<and> (\<exists>extra. selected = filter (\<lambda>r. recipeId r \<in> idsOf includeIds) recipes @ extra)
    \<and> of_nat (length selected)
         \<le> max maxD (of_nat (length (filter (\<lambda>r. recipeId r \<in> idsOf includeIds) recipes)))
    \<and> (minD \<le> of_nat (length selected)
        \<or> (\<forall>r \<in> set recipes. recipeId r \<notin> idsOf excludeIds \<longrightarrow> r \<in> set selected))"
proof -
  define E where "E = filter (\<lambda>r. recipeId r \<notin> idsOf excludeIds) recipes"
  define req where "req = filter (\<lambda>r. recipeId r \<in> idsOf includeIds) recipes"
  define av where "av = filter (\<lambda>r. recipeId r \<notin> idsOf includeIds) E"
  define slots where "slots = min (maxD - of_nat (length req)) (max 0 (minD - of_nat (length req)))"
  have a1: "(case excludeIds of None \<Rightarrow> recipes
             | Some ex \<Rightarrow> if ex = [] then recipes
                          else filter (\<lambda>r. recipeId r \<notin> set ex) recipes) = E"
    by (auto simp: E_def idsOf_def split: option.splits)
  have rq: "(case includeIds of None \<Rightarrow> []
             | Some inc \<Rightarrow> filter (\<lambda>r. recipeId r \<in> set inc) recipes) = req"
    by (auto simp: req_def idsOf_def split: option.splits)
  have a2: "(case includeIds of None \<Rightarrow> E
             | Some inc \<Rightarrow> if inc = [] then E
                           else filter (\<lambda>r. recipeId r \<notin> set inc) E) = av"
    by (auto simp: av_def idsOf_def split: option.splits)
  from sel obtain s1 u1 v1 j1 v2 where
    cl: "categoryLoop rnd maxD categoryPriority (req, remdups (map category req), av, i)
           = Inr (s1, u1, v1, j1)"
    and fr: "fillRemaining rnd (max minD slots) (s1, v1, j1) = Inr (selected, v2, i')"
    unfolding selectDishesForCombination_def Let_def a1 rq a2 slots_def [symmetric]
    by (auto split: sum.splits)
  have inv0: "selInv E req av"
    unfolding selInv_def
  proof (intro conjI ballI)
    show "distinct (map recipeId req)" unfolding req_def using dist by (rule distinct_map_filter)
    show "distinct (map recipeId av)" unfolding av_def E_def
      using dist by (intro distinct_map_filter)
    show "recipeId a \<notin> recipeId ` set req" if "a \<in> set av" for a
      using that by (auto simp: av_def req_def)
    show "r \<in> set av \<or> r \<in> set req" if "r \<in> set E" for r
      using that by (auto simp: av_def req_def E_def)
  qed
  from categoryLoop_inv [OF cl inv0 int]
  have inv1: "selInv E s1 v1" and ex1: "\<exists>extra. s1 = req @ extra"
    and le1: "of_nat (length s1) \<le> max maxD (of_nat (length req))" by blast+
  have B: "max maxD 0 \<in> \<int>" using int by (simp add: max_def)
  have "slots \<le> max 0 minD" unfolding slots_def by (simp add: min_def max_def)
  with le have b: "max minD slots \<le> max maxD 0" by (auto simp: max_def split: if_splits)
  from fillRemaining_inv [OF fr inv1 b B]
  have inv2: "selInv E selected v2" and ex2: "\<exists>extra. selected = s1 @ extra"
    and le2: "of_nat (length selected) \<le> max (max maxD 0) (of_nat (length s1))"
    and fin: "max minD slots \<le> of_nat (length selected) \<or> v2 = []" by blast+
  from inv2 have c1: "distinct (map recipeId selected)" by (simp add: selInv_def)
  from ex1 ex2 have c2: "\<exists>extra. selected = req @ extra" by auto
  have "(0::rat) \<le> of_nat (length req)" by simp
  with le1 le2 have c3: "of_nat (length selected) \<le> max maxD (of_nat (length req))"
    by (simp add: max_def split: if_splits)
  have c4: "minD \<le> of_nat (length selected)
        \<or> (\<forall>r \<in> set recipes. recipeId r \<notin> idsOf excludeIds \<longrightarrow> r \<in> set selected)"
  proof (cases "v2 = []")
    case True
    with inv2 have "\<forall>r \<in> set E. r \<in> set selected" by (simp add: selInv_def)
    then show ?thesis by (simp add: E_def)
  next
    case False
    with fin have "minD \<le> of_nat (length selected)" by simp
    then show ?thesis by simp
  qed
  from c1 c2 c3 c4 show ?thesis unfolding req_def by blast
qed

lemma categoryLoop_no_error:
  assumes "unitInterval rnd"
  shows "categoryLoop rnd maxD cs st \<noteq> Inl e"
proof -
  obtain sel used avail i where "st = (sel, used, avail, i)" by (cases st)
  with categoryLoop_total [OF assms, of maxD cs sel used avail i] show ?thesis by auto
qed

lemma fillRemaining_no_error:
  assumes "unitInterval rnd"
  shows "fillRemaining rnd b st \<noteq> Inl e"
proof -
  obtain sel avail i where "st = (sel, avail, i)" by (cases st)
  with fillRemaining_total [OF assms, of b sel avail i] show ?thesis by auto
qed

lemma selectDishes_total:
  assumes "unitInterval rnd"
  shows "\<exists>res. selectDishesForCombination rnd recipes maxD minD includeIds excludeIds i = Inr res"
  unfolding selectDishesForCombination_def Let_def
  by (simp add: categoryLoop_no_error [OF assms] fillRemaining_no_error [OF assms]
      split: sum.split prod.split)

lemma categoryLoop_prefix:
  assumes "categoryLoop rnd maxD cs (sel, used, avail, i) = Inr (sel', used', avail', i')"
  shows "\<exists>extra. sel' = sel @ extra \<and> set extra \<subseteq> set avail"
  using assms
proof (induction cs arbitrary: sel used avail i)
  case Nil
  then show ?case by simp
next
  case (Cons c cs)
  show ?case
  proof (cases "of_nat (length sel) \<ge> maxD")
    case True
    with Cons.prems show ?thesis by simp
  next
    case notfull: False
    show ?thesis
    proof (cases "c \<in> set used \<or> filter (\<lambda>r. category r = c) avail = []")
      case True
      with notfull Cons.prems have
        "categoryLoop rnd maxD cs (sel, used, avail, i) = Inr (sel', used', avail', i')"
        by (cases "c \<in> set used") (auto simp: Let_def)
      from Cons.IH [OF this] show ?thesis .
    next
      case False
      let ?cr = "filter (\<lambda>r. category r = c) avail"
      from False notfull Cons.prems(1) obtain s where
        s: "selectRandomRecipe ?cr (rnd i) = Some s"
        and rec: "categoryLoop rnd maxD cs
            (sel @ [s], used @ [c], filter (\<lambda>r. recipeId r \<noteq> recipeId s) avail, Suc i)
              = Inr (sel', used', avail', i')"
        by (auto simp: Let_def split: option.splits)
      from selectRandomRecipe_mem [OF s] have mem: "s \<in> set avail" by simp
      from Cons.IH [OF rec] obtain extra where
        "sel' = (sel @ [s]) @ extra"
        "set extra \<subseteq> set (filter (\<lambda>r. recipeId r \<noteq> recipeId s) avail)" by blast
      with mem have "sel' = sel @ (s # extra) \<and> set (s # extra) \<subseteq> set avail" by auto
      then show ?thesis by blast
    qed
  qed
qed

lemma fillRemaining_prefix:
  assumes "fillRemaining rnd b (sel, avail, i) = Inr (sel', avail', i')"
  shows "\<exists>extra. sel' = sel @ extra \<and> set extra \<subseteq> set avail"
  using assms
proof (induction rnd b "(sel, avail, i)" arbitrary: sel avail i rule: fillRemaining.induct)
  case (1 rnd b sel avail i)
  note unfold = fillRemaining.simps [of rnd b sel avail i]
  show ?case
  proof (cases "of_nat (length sel) < b \<and> avail \<noteq> []")
    case False
    with "1.prems"(1) have "sel' = sel" unfolding unfold by simp
    then show ?thesis by simp
  next
    case True
    with "1.prems"(1) obtain s where s: "selectRandomRecipe avail (rnd i) = Some s"
      and rec: "fillRemaining rnd b
          (sel @ [s], filter (\<lambda>r. recipeId r \<noteq> recipeId s) avail, Suc i)
            = Inr (sel', avail', i')"
      unfolding unfold by (simp split: option.splits)
    from selectRandomRecipe_mem [OF s] have mem: "s \<in> set avail" .
    from "1.hyps" [OF True s rec] obtain extra where
      "sel' = (sel @ [s]) @ extra"
      "set extra \<subseteq> set (filter (\<lambda>r. recipeId r \<noteq> recipeId s) avail)" by blast
    with mem have "sel' = sel @ (s # extra) \<and> set (s # extra) \<subseteq> set avail" by auto
    then show ?thesis by blast
  qed
qed

lemma categoryLoop_avail:
  assumes "categoryLoop rnd maxD cs (sel, used, avail, i) = Inr (sel', used', avail', i')"
  shows "set avail' \<subseteq> set avail"
  using assms
proof (induction cs arbitrary: sel used avail i)
  case Nil
  then show ?case by simp
next
  case (Cons c cs)
  show ?case
  proof (cases "of_nat (length sel) \<ge> maxD")
    case True
    with Cons.prems show ?thesis by simp
  next
    case notfull: False
    show ?thesis
    proof (cases "c \<in> set used \<or> filter (\<lambda>r. category r = c) avail = []")
      case True
      with notfull Cons.prems have
        "categoryLoop rnd maxD cs (sel, used, avail, i) = Inr (sel', used', avail', i')"
        by (cases "c \<in> set used") (auto simp: Let_def)
      from Cons.IH [OF this] show ?thesis .
    next
      case False
      from False notfull Cons.prems(1) obtain s where
        rec: "categoryLoop rnd maxD cs
            (sel @ [s], used @ [c], filter (\<lambda>r. recipeId r \<noteq> recipeId s) avail, Suc i)
              = Inr (sel', used', avail', i')"
        by (auto simp: Let_def split: option.splits)
      from Cons.IH [OF rec] show ?thesis by auto
    qed
  qed
qed

lemma selectDishes_prefix:
  assumes "selectDishesForCombination rnd recipes maxD minD includeIds excludeIds i
             = Inr (selected, i')"
  shows "\<exists>extra. selected = filter (\<lambda>r. recipeId r \<in> idsOf includeIds) recipes @ extra
           \<and> set extra \<subseteq> set recipes"
proof -
  define E where "E = filter (\<lambda>r. recipeId r \<notin> idsOf excludeIds) recipes"
  define req where "req = filter (\<lambda>r. recipeId r \<in> idsOf includeIds) recipes"
  define av where "av = filter (\<lambda>r. recipeId r \<notin> idsOf includeIds) E"
  define slots where "slots = min (maxD - of_nat (length req)) (max 0 (minD - of_nat (length req)))"
  have a1: "(case excludeIds of None \<Rightarrow> recipes
             | Some ex \<Rightarrow> if ex = [] then recipes
                          else filter (\<lambda>r. recipeId r \<notin> set ex) recipes) = E"
    by (auto simp: E_def idsOf_def split: option.splits)
  have rq: "(case includeIds of None \<Rightarrow> []
             | Some inc \<Rightarrow> filter (\<lambda>r. recipeId r \<in> set inc) recipes) = req"
    by (auto simp: req_def idsOf_def split: option.splits)
  have a2: "(case includeIds of None \<Rightarrow> E
             | Some inc \<Rightarrow> if inc = [] then E
                           else filter (\<lambda>r. recipeId r \<notin> set inc) E) = av"
    by (auto simp: av_def idsOf_def split: option.splits)
  from assms obtain s1 u1 v1 j1 v2 where
    cl: "categoryLoop rnd maxD categoryPriority (req, remdups (map category req), av, i)
           = Inr (s1, u1, v1, j1)"
    and fr: "fillRemaining rnd (max minD slots) (s1, v1, j1) = Inr (selected, v2, i')"
    unfolding selectDishesForCombination_def Let_def a1 rq a2 slots_def [symmetric]
    by (auto split: sum.splits)
  have av: "set av \<subseteq> set recipes" by (auto simp: av_def E_def)
  from categoryLoop_prefix [OF cl] obtain e1 where e1: "s1 = req @ e1" "set e1 \<subseteq> set av"
    by blast
  from fillRemaining_prefix [OF fr] obtain e2 where e2: "selected = s1 @ e2" "set e2 \<subseteq> set v1"
    by blast
  from categoryLoop_avail [OF cl] have "set v1 \<subseteq> set av" .
  with e1 e2 av have "selected = req @ (e1 @ e2) \<and> set (e1 @ e2) \<subseteq> set recipes" by auto
  then show ?thesis unfolding req_def by blast
qed

lemma filter_comb_distinct:
  "distinct (map recipeId recipes) \<Longrightarrow>
     distinct (map recipeId (filterRecipesByPreferences_comb recipes p))"
  unfolding filterRecipesByPreferences_comb_def Let_def
  by (auto simp: distinct_map_filter split: option.splits)

lemma generateDishCombination_selected:
  assumes "generateDishCombination rnd recipes req i = Inr (c, i')"
  shows "selectDishesForCombination rnd
           (filterRecipesByPreferences_comb recipes (preferences_cr req))
           (orDefault (maxDishes req) 6) (orDefault (minDishes req) 3)
           (includeRecipeIds req) (excludeRecipeIds req) i
         = Inr (map dishRecipe (dishes c), i')"
  using assms unfolding generateDishCombination_def Let_def
  by (auto simp: assignDishRoles_recipes split: sum.splits)

lemma generateDishCombination_total:
  assumes "unitInterval rnd"
  shows "\<exists>c i'. generateDishCombination rnd recipes req i = Inr (c, i')"
proof -
  from selectDishes_total [OF assms] obtain sel j where
    "selectDishesForCombination rnd
           (filterRecipesByPreferences_comb recipes (preferences_cr req))
           (orDefault (maxDishes req) 6) (orDefault (minDishes req) 3)
           (includeRecipeIds req) (excludeRecipeIds req) i = Inr (sel, j)"
    by (metis surj_pair)
  then show ?thesis unfolding generateDishCombination_def Let_def by simp
qed

section \<open>The number of dishes of a combination\<close>

text \<open>
  Claim C5 as stated fails: with a minimum and a maximum of two dishes and three recipes
  of the catalog on the list of recipes to include, the combination has three dishes,
  and a fourth recipe of the filtered catalog is left unselected.
\<close>

theorem dishCount_counterexample:
  "orDefault (minDishes tightRequest) 3 \<le> orDefault (maxDishes tightRequest) 6
   \<and> orDefault (maxDishes tightRequest) 6 = 2
   \<and> distinct (map recipeId fourRecipes)
   \<and> \<not> isl (generateDishCombination zeroSource fourRecipes tightRequest 0)
   \<and> map dishRecipe (dishes (fst (projr
         (generateDishCombination zeroSource fourRecipes tightRequest 0))))
       = [porkRecipe, greensRecipe, soupRecipe]
   \<and> riceRecipe \<in> set (filterRecipesByPreferences_comb fourRecipes
                          (preferences_cr tightRequest))"
  by code_simp

text \<open>
  Claim C5, amended.  Let the identifiers of the catalog be distinct, the minimum at most
  the maximum, and the maximum an integer.  In a combination that is returned no recipe
  identifier appears twice; the number of dishes is at most the greater of the maximum
  and the number of filtered recipes on the list of recipes to include, hence at most
  the maximum when that list selects no more recipes than the maximum; and the number of
  dishes is at least the minimum unless the candidates are exhausted, that is, unless
  every filtered recipe that is not excluded is in the combination.  A combination is
  returned whenever the draws lie in \<open>[0, 1)\<close>; no warning accompanies a short one.
\<close>

theorem dishCount_amended:
  assumes "distinct (map recipeId recipes)"
    and "orDefault (minDishes req) 3 \<le> orDefault (maxDishes req) 6"
    and "orDefault (maxDishes req) 6 \<in> \<int>"
  shows "(generateDishCombination rnd recipes req i = Inr (c, i') \<longrightarrow>
      (let suitable = filterRecipesByPreferences_comb recipes (preferences_cr req);
           required = filter (\<lambda>r. recipeId r \<in> idsOf (includeRecipeIds req)) suitable
       in distinct (map (\<lambda>d. recipeId (dishRecipe d)) (dishes c))
          \<and> of_nat (length (dishes c))
               \<le> max (orDefault (maxDishes req) 6) (of_nat (length required))
          \<and> (of_nat (length required) \<le> orDefault (maxDishes req) 6 \<longrightarrow>
                of_nat (length (dishes c)) \<le> orDefault (maxDishes req) 6)
          \<and> (orDefault (minDishes req) 3 \<le> of_nat (length (dishes c))
              \<or> (\<forall>r \<in> set suitable. recipeId r \<notin> idsOf (excludeRecipeIds req)
                    \<longrightarrow> r \<in> dishRecipe ` set (dishes c)))))
    \<and> (unitInterval rnd \<longrightarrow>
          (\<exists>c' j. generateDishCombination rnd recipes req i = Inr (c', j)))"
proof (intro conjI impI)
  assume gen: "generateDishCombination rnd recipes req i = Inr (c, i')"
  let ?suitable = "filterRecipesByPreferences_comb recipes (preferences_cr req)"
  let ?required = "filter (\<lambda>r. recipeId r \<in> idsOf (includeRecipeIds req)) ?suitable"
  let ?sel = "map dishRecipe (dishes c)"
  note p = selectDishes_props [OF generateDishCombination_selected [OF gen]
      filter_comb_distinct [OF assms(1)] assms(3) assms(2)]
  from p have d: "distinct (map recipeId ?sel)" by blast
  from p have u: "of_nat (length ?sel)
      \<le> max (orDefault (maxDishes req) 6) (of_nat (length ?required))" by blast
  from p have l: "orDefault (minDishes req) 3 \<le> of_nat (length ?sel)
      \<or> (\<forall>r \<in> set ?suitable. recipeId r \<notin> idsOf (excludeRecipeIds req)
            \<longrightarrow> r \<in> set ?sel)" by blast
  from d have d': "distinct (map (\<lambda>d. recipeId (dishRecipe d)) (dishes c))"
    by (simp add: comp_def)
  from u have u': "of_nat (length (dishes c))
      \<le> max (orDefault (maxDishes req) 6) (of_nat (length ?required))" by simp
  from u' have u'': "of_nat (length ?required) \<le> orDefault (maxDishes req) 6 \<longrightarrow>
                of_nat (length (dishes c)) \<le> orDefault (maxDishes req) 6" by auto
  from l have l': "orDefault (minDishes req) 3 \<le> of_nat (length (dishes c))
      \<or> (\<forall>r \<in> set ?suitable. recipeId r \<notin> idsOf (excludeRecipeIds req)
            \<longrightarrow> r \<in> dishRecipe ` set (dishes c))" by simp
  from d' u' u'' l' show "let suitable = ?suitable;
           required = filter (\<lambda>r. recipeId r \<in> idsOf (includeRecipeIds req)) suitable
       in distinct (map (\<lambda>d. recipeId (dishRecipe d)) (dishes c))
          \<and> of_nat (length (dishes c))
               \<le> max (orDefault (maxDishes req) 6) (of_nat (length required))
          \<and> (of_nat (length required) \<le> orDefault (maxDishes req) 6 \<longrightarrow>
                of_nat (length (dishes c)) \<le> orDefault (maxDishes req) 6)
          \<and> (orDefault (minDishes req) 3 \<le> of_nat (length (dishes c))
              \<or> (\<forall>r \<in> set suitable. recipeId r \<notin> idsOf (excludeRecipeIds req)
                    \<longrightarrow> r \<in> dishRecipe ` set (dishes c)))"
    unfolding Let_def by blast
next
  assume "unitInterval rnd"
  then show "\<exists>c' j. generateDishCombination rnd recipes req i = Inr (c', j)"
    by (rule generateDishCombination_total)
qed


text \<open>The amended theorem at four recipes, a minimum of 2 and a maximum of 3.\<close>

theorem dishCount_amended_witness:
  "distinct (map recipeId fourRecipes)
   \<and> orDefault (minDishes twoThreeRequest) 3 \<le> orDefault (maxDishes twoThreeRequest) 6
   \<and> unitInterval zeroSource
   \<and> (\<exists>c j. generateDishCombination zeroSource fourRecipes twoThreeRequest 0 = Inr (c, j)
          \<and> distinct (map (\<lambda>d. recipeId (dishRecipe d)) (dishes c))
          \<and> of_nat (length (dishes c)) \<le> (3::rat))"
proof -
  have h1: "distinct (map recipeId fourRecipes)" by code_simp
  have m: "orDefault (maxDishes twoThreeRequest) 6 = 3" by code_simp
  have h2: "orDefault (minDishes twoThreeRequest) 3 \<le> orDefault (maxDishes twoThreeRequest) 6"
    by code_simp
  have h3: "orDefault (maxDishes twoThreeRequest) 6 \<in> \<int>" unfolding m by simp
  have n: "length (filter (\<lambda>r. recipeId r \<in> idsOf (includeRecipeIds twoThreeRequest))
             (filterRecipesByPreferences_comb fourRecipes (preferences_cr twoThreeRequest))) = 0"
    by (simp add: idsOf_def twoThreeRequest_def)
  note w = dishCount_amended [OF h1 h2 h3, where rnd = zeroSource and i = 0, unfolded Let_def]
  from w [THEN conjunct2, rule_format, OF unitInterval_zeroSource]
  obtain c j where g: "generateDishCombination zeroSource fourRecipes twoThreeRequest 0
      = Inr (c, j)" by blast
  from w [where c = c and i' = j, THEN conjunct1, rule_format, OF g]
  have "distinct (map (\<lambda>d. recipeId (dishRecipe d)) (dishes c))"
    and "of_nat (length (dishes c)) \<le> (3::rat)"
    unfolding n m by simp_all
  with g h1 h2 unitInterval_zeroSource show ?thesis by blast
qed

section \<open>Recipes that must be included\<close>

text \<open>
  Claim C8 as stated fails: the meat recipe of the catalog is on the list of recipes to
  include, the diners are vegetarian, and the combination has no dish.
\<close>

theorem mustInclude_counterexample:
  "porkRecipe \<in> set [porkRecipe]
   \<and> recipeId porkRecipe \<in> set [ascii ''p1'']
   \<and> includeRecipeIds vegetarianIncludeRequest = Some [ascii ''p1'']
   \<and> \<not> isl (generateDishCombination zeroSource [porkRecipe] vegetarianIncludeRequest 0)
   \<and> map dishRecipe (dishes (fst (projr
         (generateDishCombination zeroSource [porkRecipe] vegetarianIncludeRequest 0)))) = []"
  by code_simp

text \<open>
  Claim C8, amended.  Every recipe that passes the preference filter and whose
  identifier is on the list of recipes to include is among the dishes of the
  combination, whatever the list of recipes to exclude says.  Every dish of the
  combination is a recipe that passes the preference filter, so that a recipe the
  preference filter removes is never included.
\<close>

theorem mustInclude_amended:
  assumes "generateDishCombination rnd recipes req i = Inr (c, i')"
  shows "(\<forall>r \<in> set (filterRecipesByPreferences_comb recipes (preferences_cr req)).
            recipeId r \<in> idsOf (includeRecipeIds req) \<longrightarrow> r \<in> dishRecipe ` set (dishes c))
    \<and> (\<forall>d \<in> set (dishes c).
            dishRecipe d \<in> set (filterRecipesByPreferences_comb recipes (preferences_cr req)))"
proof -
  let ?suitable = "filterRecipesByPreferences_comb recipes (preferences_cr req)"
  from selectDishes_prefix [OF generateDishCombination_selected [OF assms]]
  obtain extra where e: "map dishRecipe (dishes c)
      = filter (\<lambda>r. recipeId r \<in> idsOf (includeRecipeIds req)) ?suitable @ extra"
    and s: "set extra \<subseteq> set ?suitable" by blast
  have "dishRecipe ` set (dishes c) = set (map dishRecipe (dishes c))" by simp
  also have "\<dots> = set (filter (\<lambda>r. recipeId r \<in> idsOf (includeRecipeIds req)) ?suitable)
       \<union> set extra" unfolding e by simp
  finally have eq: "dishRecipe ` set (dishes c)
     = set (filter (\<lambda>r. recipeId r \<in> idsOf (includeRecipeIds req)) ?suitable) \<union> set extra" .
  show ?thesis
  proof (intro conjI ballI impI)
    fix r assume "r \<in> set ?suitable" "recipeId r \<in> idsOf (includeRecipeIds req)"
    then show "r \<in> dishRecipe ` set (dishes c)" unfolding eq by simp
  next
    fix d assume "d \<in> set (dishes c)"
    then have "dishRecipe d \<in> dishRecipe ` set (dishes c)" by simp
    then show "dishRecipe d \<in> set ?suitable" unfolding eq using s by auto
  qed
qed


text \<open>The amended theorem at a meat recipe that is on both lists.\<close>

theorem mustInclude_amended_witness:
  "generateDishCombination zeroSource [porkRecipe, greensRecipe] includeExcludeRequest 0
     = Inr (projr (generateDishCombination zeroSource [porkRecipe, greensRecipe]
                     includeExcludeRequest 0))
   \<and> recipeId porkRecipe \<in> idsOf (excludeRecipeIds includeExcludeRequest)
   \<and> porkRecipe \<in> dishRecipe ` set (dishes (fst (projr
         (generateDishCombination zeroSource [porkRecipe, greensRecipe]
            includeExcludeRequest 0))))"
proof -
  let ?g = "generateDishCombination zeroSource [porkRecipe, greensRecipe]
              includeExcludeRequest 0"
  have "\<not> isl ?g" by code_simp
  then have h: "?g = Inr (fst (projr ?g), snd (projr ?g))" by simp
  have a: "porkRecipe \<in> set (filterRecipesByPreferences_comb [porkRecipe, greensRecipe]
                                 (preferences_cr includeExcludeRequest))" by code_simp
  have b: "recipeId porkRecipe \<in> idsOf (includeRecipeIds includeExcludeRequest)"
    by (simp add: idsOf_def includeExcludeRequest_def porkRecipe_def)
  have e: "recipeId porkRecipe \<in> idsOf (excludeRecipeIds includeExcludeRequest)"
    by (simp add: idsOf_def includeExcludeRequest_def porkRecipe_def)
  from mustInclude_amended [OF h, THEN conjunct1, rule_format, OF a b] h e
  show ?thesis by simp
qed

section \<open>The scores of a combination\<close>

lemma foldl_setAdd:
  "distinct acc \<Longrightarrow>
     distinct (foldl (\<lambda>flavors flavor. setAdd flavor flavors) acc xs)
     \<and> set (foldl (\<lambda>flavors flavor. setAdd flavor flavors) acc xs) = set acc \<union> set xs"
  by (induction xs arbitrary: acc) (auto simp: setAdd_def)

lemma analyzeFlavorProfile_length:
  "length (analyzeFlavorProfile ds) = card (set (concat (map dishFlavors ds)))"
proof -
  from foldl_setAdd [of "[]" "concat (map dishFlavors ds)"]
  have "distinct (analyzeFlavorProfile ds)"
    and "set (analyzeFlavorProfile ds) = set (concat (map dishFlavors ds))"
    by (simp_all add: analyzeFlavorProfile_def)
  then show ?thesis by (metis distinct_card)
qed

lemma foldl_plus:
  "foldl (\<lambda>sum x. sum + f x) a xs = a + sum_list (map f xs)" for a :: nat
  by (induction xs arbitrary: a) simp_all

lemma generated_fields:
  assumes "generateDishCombination rnd recipes req i = Inr (c, i')"
  shows "flavorProfile c = analyzeFlavorProfile (dishes c)"
    and "nutritionalBalance c = analyzeNutritionalBalance (dishes c)"
  using assms unfolding generateDishCombination_def Let_def
  by (auto split: sum.splits)

lemma round_nearest: "\<bar>of_int \<lfloor>x + 1 / 2\<rfloor> - x\<bar> \<le> 1 / 2" for x :: rat
proof -
  define k :: rat where "k = of_int \<lfloor>x + 1 / 2\<rfloor>"
  have "k \<le> x + 1 / 2" unfolding k_def by (rule of_int_floor_le)
  moreover have "x + 1 / 2 < k + 1" unfolding k_def by linarith
  ultimately have "\<bar>k - x\<bar> \<le> 1 / 2" by linarith
  then show ?thesis unfolding k_def .
qed

text \<open>
  Claim C9.  For a combination returned by \<^verbatim>\<open>generateDishCombination\<close> with at least one
  dish, the analysis has: the nutritional score 3 for protein, 3 for vegetables, 2 for
  carbohydrates and 2 for the balance flag, at most 10; the flavor harmony the smaller
  of 10 and twice the number of distinct flavors of the dishes; the difficulty balance
  the greater of 1 and 11 minus twice the number of distinct difficulty levels; the time
  efficiency the greater of 1 and the smaller of 10 and 10 minus a tenth of the average
  cook time in minutes; and the overall score the average of the four rounded half up,
  which is at most one half away from the average.
\<close>

theorem analysis_scores:
  assumes "generateDishCombination rnd recipes req i = Inr (c, i')" and "dishes c \<noteq> []"
  shows "(let a = analyzeCombination c; b = nutritionalBalance c;
             averageCookMinutes =
               of_nat (sum_list (map (\<lambda>d. parseTimeInMinutes (cookTime (dishRecipe d)))
                                     (dishes c))) / of_nat (length (dishes c))
         in nutritionalScore a
              = 3 * flag (hasProtein b) + 3 * flag (hasVegetables b) + 2 * flag (hasCarbs b)
                + 2 * flag (isBalanced b)
            \<and> nutritionalScore a \<le> 10
            \<and> flavorHarmony a
                = min 10 (2 * of_nat (card (set (concat (map dishFlavors (dishes c))))))
            \<and> difficultyBalance a
                = max 1 (11 - 2 * of_nat (card (set (map (\<lambda>d. difficulty (dishRecipe d))
                                                          (dishes c)))))
            \<and> timeEfficiency a = max 1 (min 10 (10 - averageCookMinutes / 10))
            \<and> overallScore a
                = of_int \<lfloor>(nutritionalScore a + flavorHarmony a + difficultyBalance a
                            + timeEfficiency a) / 4 + 1 / 2\<rfloor>
            \<and> \<bar>overallScore a
                 - (nutritionalScore a + flavorHarmony a + difficultyBalance a
                    + timeEfficiency a) / 4\<bar> \<le> 1 / 2)"
proof -
  let ?a = "analyzeCombination c"
  let ?avg = "(nutritionalScore ?a + flavorHarmony ?a + difficultyBalance ?a
                    + timeEfficiency ?a) / 4"
  have n: "nutritionalScore ?a
      = 3 * flag (hasProtein (nutritionalBalance c))
        + 3 * flag (hasVegetables (nutritionalBalance c))
        + 2 * flag (hasCarbs (nutritionalBalance c))
        + 2 * flag (isBalanced (nutritionalBalance c))"
    by (simp add: analyzeCombination_def Let_def flag_def)
  have n10: "nutritionalScore ?a \<le> 10" unfolding n by (simp add: flag_def)
  have f: "flavorHarmony ?a
      = min 10 (2 * of_nat (card (set (concat (map dishFlavors (dishes c))))))"
    using generated_fields(1) [OF assms(1)]
    by (simp add: analyzeCombination_def Let_def analyzeFlavorProfile_length mult.commute)
  have d: "difficultyBalance ?a
      = max 1 (11 - 2 * of_nat (card (set (map (\<lambda>d. difficulty (dishRecipe d)) (dishes c)))))"
    by (simp add: analyzeCombination_def Let_def length_remdups_card_conv mult.commute)
  have t: "timeEfficiency ?a
      = max 1 (min 10 (10 - (of_nat (sum_list (map (\<lambda>d. parseTimeInMinutes
            (cookTime (dishRecipe d))) (dishes c))) / of_nat (length (dishes c))) / 10))"
    by (simp add: analyzeCombination_def Let_def foldl_plus)
  have "overallScore ?a = mathRound ?avg"
    unfolding analyzeCombination_def Let_def by (simp only: CombinationAnalysis.select_convs)
  then have o: "overallScore ?a = of_int \<lfloor>?avg + 1 / 2\<rfloor>"
    by (simp only: mathRound_def)
  have r: "\<bar>overallScore ?a - ?avg\<bar> \<le> 1 / 2" unfolding o by (rule round_nearest)
  from n n10 f d t o r show ?thesis unfolding Let_def by blast
qed

text \<open>The theorem at the combination of pork, greens and soup.\<close>

theorem analysis_scores_witness:
  "generateDishCombination zeroSource fourRecipes twoThreeRequest 0
     = Inr (projr (generateDishCombination zeroSource fourRecipes twoThreeRequest 0))
   \<and> dishes (fst (projr (generateDishCombination zeroSource fourRecipes twoThreeRequest 0)))
       \<noteq> []
   \<and> nutritionalScore (analyzeCombination (fst (projr
         (generateDishCombination zeroSource fourRecipes twoThreeRequest 0)))) = 6
   \<and> flavorHarmony (analyzeCombination (fst (projr
         (generateDishCombination zeroSource fourRecipes twoThreeRequest 0)))) = 6
   \<and> difficultyBalance (analyzeCombination (fst (projr
         (generateDishCombination zeroSource fourRecipes twoThreeRequest 0)))) = 7
   \<and> timeEfficiency (analyzeCombination (fst (projr
         (generateDishCombination zeroSource fourRecipes twoThreeRequest 0)))) = 41 / 6"
proof -
  let ?g = "generateDishCombination zeroSource fourRecipes twoThreeRequest 0"
  let ?c = "fst (projr ?g)"
  have "\<not> isl ?g" by code_simp
  then have h: "?g = Inr (?c, snd (projr ?g))" by simp
  have ne: "dishes ?c \<noteq> []" by code_simp
  note w = analysis_scores [OF h ne, unfolded Let_def]
  have b: "3 * flag (hasProtein (nutritionalBalance ?c))
      + 3 * flag (hasVegetables (nutritionalBalance ?c))
      + 2 * flag (hasCarbs (nutritionalBalance ?c))
      + 2 * flag (isBalanced (nutritionalBalance ?c)) = 6" by code_simp
  have fl: "set (concat (map dishFlavors (dishes ?c)))
      = {[39321], [27987, 37057], [28165, 28129]}" by code_simp
  have "card {[39321], [27987, 37057], [28165, 28129 :: nat]} = 3" by simp
  with fl have f: "min 10 (2 * of_nat (card (set (concat (map dishFlavors (dishes ?c))))))
      = (6::rat)" by simp
  have ds: "set (map (\<lambda>d. difficulty (dishRecipe d)) (dishes ?c)) = {Medium, Easy}"
    by code_simp
  have "card {Medium, Easy} = 2" by simp
  with ds have d: "max 1 (11 - 2 * of_nat (card (set (map (\<lambda>d. difficulty (dishRecipe d))
      (dishes ?c))))) = (7::rat)" by simp
  have t: "max 1 (min 10 (10 - (of_nat (sum_list (map (\<lambda>d. parseTimeInMinutes
            (cookTime (dishRecipe d))) (dishes ?c))) / of_nat (length (dishes ?c))) / 10))
      = (41 / 6 :: rat)" by code_simp
  from w b f d t h ne show ?thesis by (simp only:) simp
qed

section \<open>Scaling at the baseline serving count\<close>




section \<open>Consolidation\<close>

lemma map_of_mapSet: "map_of (mapSet k v m) = (map_of m)(k \<mapsto> v)"
  by (induction m) (auto simp: fun_eq_iff)

lemma keys_mapSet: "fst ` set (mapSet k v m) = insert k (fst ` set m)"
proof (induction m)
  case Nil
  then show ?case by simp
next
  case (Cons p m)
  obtain a b where p: "p = (a, b)" by (cases p)
  show ?case
  proof (cases "a = k")
    case True
    with p show ?thesis by simp
  next
    case False
    with p Cons.IH show ?thesis by (simp add: insert_commute)
  qed
qed

lemma distinct_mapSet: "distinct (map fst m) \<Longrightarrow> distinct (map fst (mapSet k v m))"
  by (induction m) (auto simp: keys_mapSet)

lemma set_mapSet_subset: "set (mapSet k v m) \<subseteq> insert (k, v) (set m)"
proof (induction m)
  case Nil
  then show ?case by simp
next
  case (Cons p m)
  obtain a b where p: "p = (a, b)" by (cases p)
  from Cons.IH show ?case unfolding p by (cases "a = k") auto
qed

lemma consolidate_entries:
  "foldl (addRecipe True people) m recipes = foldl (stepE people) m (entries recipes)"
proof (induction recipes arbitrary: m)
  case Nil
  then show ?case by (simp add: entries_def)
next
  case (Cons r recipes)
  have "foldl (stepE people) m (map (Pair r) ings)
      = foldl (addIngredient True (people / servings r) r) m ings" for ings
    by (induction ings arbitrary: m) (simp_all add: stepE_def)
  then have "addRecipe True people m r = foldl (stepE people) m (map (Pair r) (ingredients r))"
    by (simp add: addRecipe_def)
  with Cons.IH show ?case by (simp add: entries_def)
qed

lemma stepE_keys: "fst ` set (stepE people m e) = insert (ingName (snd e)) (fst ` set m)"
  unfolding stepE_def addIngredient_def Let_def itemKey_def
  by (simp add: keys_mapSet split: option.split)

lemma stepE_distinct: "distinct (map fst m) \<Longrightarrow> distinct (map fst (stepE people m e))"
  unfolding stepE_def addIngredient_def Let_def itemKey_def
  by (simp add: distinct_mapSet split: option.split)

lemma stepE_map_of_other:
  "k \<noteq> ingName (snd e) \<Longrightarrow> map_of (stepE people m e) k = map_of m k"
  unfolding stepE_def addIngredient_def Let_def itemKey_def
  by (simp add: map_of_mapSet split: option.split)

lemma stepE_quantity:
  "map_option quantity (map_of (stepE people m e) (ingName (snd e)))
     = Some (case map_option quantity (map_of m (ingName (snd e))) of
               None \<Rightarrow> scaledAmount people e
             | Some q \<Rightarrow> combineQuantities q (scaledAmount people e))"
  unfolding stepE_def addIngredient_def Let_def itemKey_def scaledAmount_def
  by (simp add: map_of_mapSet split: option.split)

lemma stepE_wellNamed:
  assumes "wellNamed m" "distinct (map fst m)"
  shows "wellNamed (stepE people m e)"
proof -
  let ?k = "ingName (snd e)"
  show ?thesis
  proof (cases "map_of m ?k")
    case None
    then have "stepE people m e = mapSet ?k
        \<lparr>itemName = ?k, itemCategory = categorizeIngredient ?k,
         quantity = scaledAmount people e,
         estimatedPrice = estimatePrice ?k (categorizeIngredient ?k),
         priority = determinePriority ?k (categorizeIngredient ?k),
         itemNotes = ingNotes (snd e), recipeIds = [recipeId (fst e)],
         recipeNames = [recipeName (fst e)], isPurchased = False\<rparr> m"
      unfolding stepE_def addIngredient_def Let_def itemKey_def scaledAmount_def by simp
    with assms(1) set_mapSet_subset [of ?k _ m] show ?thesis
      unfolding wellNamed_def by fastforce
  next
    case (Some ex)
    then have in_m: "(?k, ex) \<in> set m" by (rule map_of_SomeD)
    with assms(1) have ex: "itemName ex = ?k" "itemCategory ex = categorizeIngredient ?k"
      unfolding wellNamed_def by auto
    from Some have "stepE people m e = mapSet ?k
        (ex\<lparr>quantity := combineQuantities (quantity ex) (scaledAmount people e),
            recipeIds := recipeIds ex @ [recipeId (fst e)],
            recipeNames := recipeNames ex @ [recipeName (fst e)]\<rparr>) m"
      unfolding stepE_def addIngredient_def Let_def itemKey_def scaledAmount_def by simp
    with assms(1) ex set_mapSet_subset [of ?k _ m] show ?thesis
      unfolding wellNamed_def by fastforce
  qed
qed

lemma foldl_stepE_inv:
  assumes "wellNamed m" "distinct (map fst m)"
  shows "wellNamed (foldl (stepE people) m es) \<and> distinct (map fst (foldl (stepE people) m es))
    \<and> fst ` set (foldl (stepE people) m es) = fst ` set m \<union> ingName ` snd ` set es"
  using assms
proof (induction es arbitrary: m)
  case Nil
  then show ?case by simp
next
  case (Cons e es)
  from Cons.IH [OF stepE_wellNamed [OF Cons.prems, of people e]
      stepE_distinct [OF Cons.prems(2), of people e]]
  show ?case by (simp add: stepE_keys)
qed

lemma quantity_fold:
  "map_option quantity (map_of (foldl (stepE people) m es) k)
     = combineAll (map_option quantity (map_of m k))
         (map (scaledAmount people) (filter (\<lambda>e. ingName (snd e) = k) es))"
proof (induction es arbitrary: m)
  case Nil
  then show ?case by simp
next
  case (Cons e es)
  show ?case
  proof (cases "ingName (snd e) = k")
    case True
    have "map_option quantity (map_of (foldl (stepE people) m (e # es)) k)
        = combineAll (map_option quantity (map_of (stepE people m e) k))
            (map (scaledAmount people) (filter (\<lambda>e. ingName (snd e) = k) es))"
      using Cons.IH [of "stepE people m e"] by simp
    also have "map_option quantity (map_of (stepE people m e) k)
        = Some (case map_option quantity (map_of m k) of
               None \<Rightarrow> scaledAmount people e
             | Some q \<Rightarrow> combineQuantities q (scaledAmount people e))"
      using stepE_quantity [of people m e] unfolding True .
    also have "combineAll (Some (case map_option quantity (map_of m k) of
               None \<Rightarrow> scaledAmount people e
             | Some q \<Rightarrow> combineQuantities q (scaledAmount people e)))
            (map (scaledAmount people) (filter (\<lambda>e. ingName (snd e) = k) es))
        = combineAll (map_option quantity (map_of m k))
            (map (scaledAmount people) (filter (\<lambda>e. ingName (snd e) = k) (e # es)))"
      using True by simp
    finally show ?thesis .
  next
    case False
    with Cons.IH [of "stepE people m e"] stepE_map_of_other [of k e people m]
    show ?thesis by simp
  qed
qed

lemma numericMatch_print:
  assumes "tidyUnit u"
  shows "numericMatch (numToString x @ u) = Some (numToString x, u)"
proof -
  from assms have "numericShape (numToString x) [] u"
    by (simp add: numericShape_def tidyUnit_def isNumeral_numToString)
  from numericMatch_shape [OF this] show ?thesis by simp
qed

lemma parseFloat_nonneg: "0 \<le> parseFloat s"
  by (simp add: parseFloat_def Let_def)

lemma combine_uniform:
  assumes "tidyUnit u"
  shows "combineQuantities (numToString (of_nat a / 100) @ u) (numToString (of_nat b / 100) @ u)
           = numToString (of_nat (a + b) / 100) @ u"
proof -
  have "((of_nat a / 100 + of_nat b / 100) * 100 :: rat) = of_nat (a + b)" by simp
  then have "mathRound ((of_nat a / 100 + of_nat b / 100) * 100) / 100 = of_nat (a + b) / 100"
    by (simp only: mathRound_of_nat)
  then show ?thesis
    unfolding combineQuantities_def
    by (simp only: numericMatch_print [OF assms] parseFloat_numToString option.case prod.case
        Let_def if_True refl)
qed

lemma scaled_form:
  assumes "numericMatch amt = Some (n, u)" "0 \<le> f"
  shows "scaleIngredientAmount_shopping amt f
           = numToString (of_nat (nat \<lfloor>parseFloat n * f * 100 + 1 / 2\<rfloor>) / 100) @ u"
proof -
  define x where "x = parseFloat n * f * 100"
  have "0 \<le> x" unfolding x_def using parseFloat_nonneg [of n] assms(2) by simp
  then have "0 \<le> \<lfloor>x + 1 / 2\<rfloor>" by simp
  then have "mathRound x = of_nat (nat \<lfloor>x + 1 / 2\<rfloor>)"
    unfolding mathRound_def by (metis of_int_of_nat_eq int_nat_eq)
  then show ?thesis
    unfolding scaleIngredientAmount_shopping_def Let_def x_def using assms(1) by simp
qed

lemma scaledAmount_form:
  assumes "unitOf (amount (snd e)) = Some u" "0 \<le> people" "0 < servings (fst e)"
  shows "scaledAmount people e = numToString (of_nat (centsOf people e) / 100) @ u"
proof -
  from assms(1) obtain n where n: "numericMatch (amount (snd e)) = Some (n, u)"
    by (auto simp: unitOf_def)
  from assms(2,3) have "0 \<le> people / servings (fst e)" by simp
  from scaled_form [OF n this] n show ?thesis by (simp add: scaledAmount_def centsOf_def)
qed

lemma combineAll_uniform:
  assumes "tidyUnit u"
  shows "combineAll (Some (numToString (of_nat a / 100) @ u))
           (map (\<lambda>c. numToString (of_nat c / 100) @ u) cs)
         = Some (numToString (of_nat (a + sum_list cs) / 100) @ u)"
proof (induction cs arbitrary: a)
  case Nil
  then show ?case by simp
next
  case (Cons c cs)
  from Cons.IH [of "a + c"] show ?case
    by (simp add: combine_uniform [OF assms] add.assoc)
qed

lemma combineAll_entries:
  assumes "\<forall>e \<in> set xs. unitOf (amount (snd e)) = Some u" and "tidyUnit u" and "0 \<le> people"
    and "\<forall>e \<in> set xs. 0 < servings (fst e)" and "xs \<noteq> []"
  shows "combineAll None (map (scaledAmount people) xs)
           = Some (numToString (of_nat (sum_list (map (centsOf people) xs)) / 100) @ u)"
proof -
  have m: "map (scaledAmount people) ys
      = map (\<lambda>c. numToString (of_nat c / 100) @ u) (map (centsOf people) ys)"
    if "set ys \<subseteq> set xs" for ys
  proof (rule map_ext [THEN trans [OF _ map_map [symmetric]]], rule impI)
    fix e assume "e \<in> set ys"
    with that have "e \<in> set xs" by blast
    with assms(1,3,4) have "scaledAmount people e
        = numToString (of_nat (centsOf people e) / 100) @ u"
      by (intro scaledAmount_form) auto
    then show "scaledAmount people e
        = ((\<lambda>c. numToString (of_nat c / 100) @ u) \<circ> centsOf people) e" by simp
  qed
  from assms(5) obtain x xs' where xs: "xs = x # xs'" by (cases xs) auto
  have "combineAll None (map (scaledAmount people) xs)
      = combineAll (Some (scaledAmount people x)) (map (scaledAmount people) xs')"
    unfolding xs by simp
  also have "scaledAmount people x = numToString (of_nat (centsOf people x) / 100) @ u"
    using assms(1,3,4) xs by (simp add: scaledAmount_form)
  also have "map (scaledAmount people) xs'
      = map (\<lambda>c. numToString (of_nat c / 100) @ u) (map (centsOf people) xs')"
    using m [of xs'] xs by auto
  also have "combineAll (Some (numToString (of_nat (centsOf people x) / 100) @ u))
        (map (\<lambda>c. numToString (of_nat c / 100) @ u) (map (centsOf people) xs'))
      = Some (numToString (of_nat (centsOf people x + sum_list (map (centsOf people) xs')) / 100)
               @ u)"
    by (rule combineAll_uniform [OF assms(2)])
  finally show ?thesis unfolding xs by simp
qed
lemma consolidated_map:
  fixes people es
  defines "m \<equiv> foldl (stepE people) [] es"
  shows "wellNamed m" and "distinct (map fst m)" and "fst ` set m = ingName ` snd ` set es"
    and "map_option quantity (map_of m k)
           = combineAll None (map (scaledAmount people) (filter (\<lambda>e. ingName (snd e) = k) es))"
proof -
  have w: "wellNamed ([] :: (jsstring \<times> ShoppingItem) list)" by (simp add: wellNamed_def)
  from foldl_stepE_inv [OF w, of people es]
  show "wellNamed m" "distinct (map fst m)" "fst ` set m = ingName ` snd ` set es"
    unfolding m_def by simp_all
  from quantity_fold [of people "[]" es k]
  show "map_option quantity (map_of m k)
           = combineAll None (map (scaledAmount people) (filter (\<lambda>e. ingName (snd e) = k) es))"
    unfolding m_def by simp
qed

lemma consolidated_triples:
  "set (map (\<lambda>it. (itemCategory it, itemName it, quantity it))
          (map snd (foldl (stepE people) [] es)))
     = (\<lambda>k. (categorizeIngredient k, k,
              the (combineAll None
                     (map (scaledAmount people) (filter (\<lambda>e. ingName (snd e) = k) es)))))
         ` (ingName ` snd ` set es)"
  (is "?L = ?f ` ?N")
proof -
  let ?m = "foldl (stepE people) [] es"
  note c = consolidated_map [of people es]
  have t: "(itemCategory it, itemName it, quantity it) = ?f k \<and> k \<in> ?N"
    if "(k, it) \<in> set ?m" for k it
  proof -
    from that c(1) have n: "itemName it = k" "itemCategory it = categorizeIngredient k"
      unfolding wellNamed_def by auto
    from that c(2) have "map_of ?m k = Some it" by simp
    with c(4) [of k] have
      "combineAll None (map (scaledAmount people) (filter (\<lambda>e. ingName (snd e) = k) es))
         = Some (quantity it)" by simp
    moreover from that have "k \<in> fst ` set ?m" by force
    ultimately show ?thesis using n c(3) by simp
  qed
  show ?thesis
  proof (intro set_eqI iffI)
    fix x assume "x \<in> ?L"
    then obtain k it where "(k, it) \<in> set ?m"
      "x = (itemCategory it, itemName it, quantity it)" by auto
    with t show "x \<in> ?f ` ?N" by blast
  next
    fix x assume "x \<in> ?f ` ?N"
    then obtain k where k: "k \<in> ?N" "x = ?f k" by blast
    with c(3) obtain it where in_m: "(k, it) \<in> set ?m" by force
    from t [OF this] k have "x = (itemCategory it, itemName it, quantity it)" by simp
    with in_m show "x \<in> ?L" by force
  qed
qed

lemma consolidated_items_named:
  "\<forall>it \<in> set (map snd (foldl (stepE people) [] es)).
      itemCategory it = categorizeIngredient (itemName it)"
  using consolidated_map(1) [of people es] unfolding wellNamed_def by auto

lemma entries_mset:
  assumes "mset recipes' = mset recipes"
  shows "mset (entries recipes') = mset (entries recipes)"
proof -
  have "mset (entries rs)
      = sum_mset (image_mset (\<lambda>r. mset (map (Pair r) (ingredients r))) (mset rs))" for rs
    unfolding entries_def by (induction rs) simp_all
  with assms show ?thesis by simp
qed

lemma combined_perm:
  assumes "mset es' = mset es" and "uniformEntries es" and "0 \<le> people"
    and "\<forall>e \<in> set es. 0 < servings (fst e)" and "k \<in> ingName ` snd ` set es"
  shows "combineAll None (map (scaledAmount people) (filter (\<lambda>e. ingName (snd e) = k) es'))
       = combineAll None (map (scaledAmount people) (filter (\<lambda>e. ingName (snd e) = k) es))"
proof -
  let ?xs = "filter (\<lambda>e. ingName (snd e) = k) es"
  let ?xs' = "filter (\<lambda>e. ingName (snd e) = k) es'"
  from assms(1) have ms: "mset ?xs' = mset ?xs" by simp
  then have st: "set ?xs' = set ?xs" by (rule mset_eq_setD)
  from assms(5) obtain e0 where e0: "e0 \<in> set ?xs" by auto
  then have "0 < length ?xs" by (rule length_pos_if_in_set)
  then have ne: "?xs \<noteq> []" by (simp only: length_greater_0_conv simp_thms)
  from e0 have "e0 \<in> set ?xs'" by (simp only: st)
  then have "0 < length ?xs'" by (rule length_pos_if_in_set)
  then have ne': "?xs' \<noteq> []" by (simp only: length_greater_0_conv simp_thms)
  from e0 have e0es: "e0 \<in> set es" and e0k: "ingName (snd e0) = k" by simp_all
  from assms(2) have tidy: "\<forall>e \<in> set es.
      case unitOf (amount (snd e)) of None \<Rightarrow> False | Some u \<Rightarrow> tidyUnit u"
    and same: "\<forall>e \<in> set es. \<forall>e' \<in> set es. ingName (snd e) = ingName (snd e')
      \<longrightarrow> unitOf (amount (snd e)) = unitOf (amount (snd e'))"
    unfolding uniformEntries_def by blast+
  from tidy e0es have "case unitOf (amount (snd e0)) of None \<Rightarrow> False | Some u \<Rightarrow> tidyUnit u"
    by blast
  then obtain u where u: "unitOf (amount (snd e0)) = Some u" "tidyUnit u"
    by (cases "unitOf (amount (snd e0))") auto
  have allu: "\<forall>e \<in> set ?xs. unitOf (amount (snd e)) = Some u"
  proof
    fix e assume "e \<in> set ?xs"
    then have "e \<in> set es" "ingName (snd e) = ingName (snd e0)" using e0k by simp_all
    with same e0es have "unitOf (amount (snd e)) = unitOf (amount (snd e0))" by blast
    with u(1) show "unitOf (amount (snd e)) = Some u" by simp
  qed
  from assms(4) have pos: "\<forall>e \<in> set ?xs. 0 < servings (fst e)" by auto
  have "sum_list (map (centsOf people) ?xs') = sum_mset (mset (map (centsOf people) ?xs'))"
    by (simp only: sum_mset_sum_list)
  also have "\<dots> = sum_mset (mset (map (centsOf people) ?xs))" by (simp only: mset_map ms)
  also have "\<dots> = sum_list (map (centsOf people) ?xs)" by (simp only: sum_mset_sum_list)
  finally have s: "sum_list (map (centsOf people) ?xs') = sum_list (map (centsOf people) ?xs)" .
  have allu': "\<forall>e \<in> set ?xs'. unitOf (amount (snd e)) = Some u"
    and pos': "\<forall>e \<in> set ?xs'. 0 < servings (fst e)"
    using allu pos unfolding st by blast+
  have "combineAll None (map (scaledAmount people) ?xs')
      = Some (numToString (of_nat (sum_list (map (centsOf people) ?xs')) / 100) @ u)"
    using allu' u(2) assms(3) pos' ne' by (rule combineAll_entries)
  also have "\<dots> = combineAll None (map (scaledAmount people) ?xs)"
    unfolding s using allu u(2) assms(3) pos ne by (rule combineAll_entries [symmetric])
  finally show ?thesis .
qed


section \<open>Sorting and grouping\<close>

lemma insortBy_mset: "mset (insortBy cmp x ys) = add_mset x (mset ys)"
  by (induction ys) simp_all

lemma insortBy_set: "set (insortBy cmp x ys) = insert x (set ys)"
  by (induction ys) auto

lemma sortBy_mset: "mset (sortBy cmp xs) = mset xs"
  unfolding sortBy_def by (induction xs) (simp_all add: insortBy_mset)

lemma sortBy_set: "set (sortBy cmp xs) = set xs"
  using sortBy_mset [of cmp xs] by (rule mset_eq_setD)

lemma insortBy_key_sorted:
  fixes key :: "'a \<Rightarrow> int"
  assumes "sorted (map key ys)"
  shows "sorted (map key (insortBy (\<lambda>a b. key a - key b) x ys))"
  using assms
proof (induction ys)
  case Nil
  then show ?case by simp
next
  case (Cons y ys)
  from Cons show ?case by (auto simp: insortBy_set)
qed

lemma sortBy_key_sorted:
  fixes key :: "'a \<Rightarrow> int"
  shows "sorted (map key (sortBy (\<lambda>a b. key a - key b) xs))"
proof (induction xs)
  case Nil
  then show ?case by (simp add: sortBy_def)
next
  case (Cons x xs)
  have "sortBy (\<lambda>a b. key a - key b) (x # xs)
      = insortBy (\<lambda>a b. key a - key b) x (sortBy (\<lambda>a b. key a - key b) xs)"
    by (simp add: sortBy_def)
  with Cons show ?case by (simp only: insortBy_key_sorted)
qed

lemma indexOf_categoryOrder_inj: "inj (indexOf categoryOrder)"
proof (rule injI)
  fix a b :: ShoppingCategory
  assume "indexOf categoryOrder a = indexOf categoryOrder b"
  then show "a = b"
    by (cases a; cases b) (simp_all add: categoryOrder_def)
qed

lemma sortBy_key_unique:
  fixes key :: "'a \<Rightarrow> int"
  assumes "set (map key xs) = set (map key ys)" "distinct (map key xs)" "distinct (map key ys)"
  shows "map key (sortBy (\<lambda>a b. key a - key b) xs) = map key (sortBy (\<lambda>a b. key a - key b) ys)"
proof -
  let ?c = "\<lambda>a b. key a - key b"
  have m: "mset (map key (sortBy ?c zs)) = mset (map key zs)" for zs
    by (simp only: mset_map sortBy_mset)
  have d: "distinct (map key (sortBy ?c xs))" "distinct (map key (sortBy ?c ys))"
    using assms(2,3) m [of xs] m [of ys] by (metis mset_eq_imp_distinct_iff)+
  have s: "set (map key (sortBy ?c xs)) = set (map key (sortBy ?c ys))"
    using assms(1) m [of xs, THEN mset_eq_setD] m [of ys, THEN mset_eq_setD] by (simp only:)
  from sortBy_key_sorted [of key xs] d(1) sortBy_key_sorted [of key ys] d(2) s
  show ?thesis by (rule sorted_distinct_set_unique)
qed

lemma pushByCategory_step:
  assumes "distinct (map fst m)"
    and "\<forall>c. map_of m c = (if c \<in> itemCategory ` set xs
                             then Some (filter (\<lambda>it. itemCategory it = c) xs) else None)"
  shows "distinct (map fst (pushByCategory m x))"
    and "\<forall>c. map_of (pushByCategory m x) c
             = (if c \<in> itemCategory ` set (xs @ [x])
                then Some (filter (\<lambda>it. itemCategory it = c) (xs @ [x])) else None)"
proof -
  show "distinct (map fst (pushByCategory m x))"
    using assms(1) unfolding pushByCategory_def Let_def
    by (simp add: map_of_mapSet distinct_mapSet split: option.split)
  show "\<forall>c. map_of (pushByCategory m x) c
             = (if c \<in> itemCategory ` set (xs @ [x])
                then Some (filter (\<lambda>it. itemCategory it = c) (xs @ [x])) else None)"
  proof
    fix c
    show "map_of (pushByCategory m x) c
             = (if c \<in> itemCategory ` set (xs @ [x])
                then Some (filter (\<lambda>it. itemCategory it = c) (xs @ [x])) else None)"
    proof (cases "map_of m (itemCategory x)")
      case None
      with assms(2) have n: "itemCategory x \<notin> itemCategory ` set xs"
        by (metis option.distinct(1))
      then have e: "filter (\<lambda>it. itemCategory it = itemCategory x) xs = []"
        unfolding filter_empty_conv by (metis imageI)
      from None have "map_of (pushByCategory m x) c = ((map_of m)(itemCategory x \<mapsto> [x])) c"
        unfolding pushByCategory_def Let_def by (simp add: map_of_mapSet)
      then show ?thesis using assms(2) n e by auto
    next
      case (Some its)
      with assms(2) have i: "itemCategory x \<in> itemCategory ` set xs"
        and its: "its = filter (\<lambda>it. itemCategory it = itemCategory x) xs"
        by (metis option.distinct(1), metis option.inject option.distinct(1))
      from Some have "map_of (pushByCategory m x) c
          = ((map_of m)(itemCategory x \<mapsto> its @ [x])) c"
        unfolding pushByCategory_def Let_def by (simp add: map_of_mapSet)
      then show ?thesis using assms(2) i its by auto
    qed
  qed
qed

lemma foldl_pushByCategory:
  assumes "distinct (map fst m)"
    and "\<forall>c. map_of m c = (if c \<in> itemCategory ` set xs
                             then Some (filter (\<lambda>it. itemCategory it = c) xs) else None)"
  shows "distinct (map fst (foldl pushByCategory m ys))
    \<and> (\<forall>c. map_of (foldl pushByCategory m ys) c
             = (if c \<in> itemCategory ` set (xs @ ys)
                then Some (filter (\<lambda>it. itemCategory it = c) (xs @ ys)) else None))"
  using assms
proof (induction ys arbitrary: m xs)
  case Nil
  then show ?case by simp
next
  case (Cons y ys)
  note st = pushByCategory_step [OF Cons.prems, of y]
  from Cons.IH [OF st] show ?case by simp
qed

lemma categoryMap_set:
  "set (foldl pushByCategory [] items)
     = (\<lambda>c. (c, filter (\<lambda>it. itemCategory it = c) items)) ` itemCategory ` set items"
    (is "set ?G = ?R")
  and categoryMap_distinct: "distinct (map fst (foldl pushByCategory [] items))"
proof -
  have "distinct (map fst ([] :: (ShoppingCategory \<times> ShoppingItem list) list))" by simp
  moreover have "\<forall>c. map_of ([] :: (ShoppingCategory \<times> ShoppingItem list) list) c
      = (if c \<in> itemCategory ` set ([] :: ShoppingItem list)
         then Some (filter (\<lambda>it. itemCategory it = c) []) else None)" by simp
  ultimately have g: "distinct (map fst ?G)
    \<and> (\<forall>c. map_of ?G c
             = (if c \<in> itemCategory ` set ([] @ items)
                then Some (filter (\<lambda>it. itemCategory it = c) ([] @ items)) else None))"
    by (rule foldl_pushByCategory)
  then show d: "distinct (map fst ?G)" by simp
  from g have m: "map_of ?G c
             = (if c \<in> itemCategory ` set items
                then Some (filter (\<lambda>it. itemCategory it = c) items) else None)" for c
    by simp
  show "set ?G = ?R"
  proof (intro set_eqI iffI)
    fix p assume p: "p \<in> set ?G"
    obtain c its where pc: "p = (c, its)" by (cases p)
    with p d have "map_of ?G c = Some its" by simp
    with m [of c] have "c \<in> itemCategory ` set items"
      "its = filter (\<lambda>it. itemCategory it = c) items"
      by (metis option.distinct(1), metis option.inject option.distinct(1))
    with pc show "p \<in> ?R" by blast
  next
    fix p assume "p \<in> ?R"
    then obtain c where c: "c \<in> itemCategory ` set items"
      "p = (c, filter (\<lambda>it. itemCategory it = c) items)" by blast
    with m [of c] have "map_of ?G c = Some (snd p)" by simp
    then have "(c, snd p) \<in> set ?G" by (rule map_of_SomeD)
    with c(2) show "p \<in> set ?G" by simp
  qed
qed

lemma groupItems_set:
  "set (groupItemsByCategory cmp items)
     = (\<lambda>c. \<lparr>sectionCategory = c,
               sectionItems = sortBy (\<lambda>a b. cmp (itemName a) (itemName b))
                                (filter (\<lambda>it. itemCategory it = c) items),
               sectionCost = sum_list (map estimatedPrice
                                (filter (\<lambda>it. itemCategory it = c) items))\<rparr>)
         ` itemCategory ` set items"
  unfolding groupItemsByCategory_def Let_def sortBy_set set_map categoryMap_set image_image
  by simp

lemma groupItems_keys:
  "map sectionCategory
     (map (\<lambda>(cat, its).
             \<lparr>sectionCategory = cat,
              sectionItems = sortBy (\<lambda>a b. cmp (itemName a) (itemName b)) its,
              sectionCost = sum_list (map estimatedPrice its)\<rparr>) m)
   = map fst m"
  by (induction m) auto

lemma groupItems_categories:
  assumes "itemCategory ` set items' = itemCategory ` set items"
  shows "map sectionCategory (groupItemsByCategory cmp items')
       = map sectionCategory (groupItemsByCategory cmp items)"
proof -
  let ?mk = "\<lambda>(cat, its).
             \<lparr>sectionCategory = cat,
              sectionItems = sortBy (\<lambda>a b. cmp (itemName a) (itemName b)) its,
              sectionCost = sum_list (map estimatedPrice its)\<rparr>"
  let ?key = "\<lambda>s. indexOf categoryOrder (sectionCategory s)"
  let ?S = "\<lambda>xs. map ?mk (foldl pushByCategory [] xs)"
  have g: "groupItemsByCategory cmp xs = sortBy (\<lambda>a b. ?key a - ?key b) (?S xs)" for xs
    unfolding groupItemsByCategory_def Let_def by (rule refl)
  have k: "map ?key (?S xs) = map (indexOf categoryOrder) (map fst (foldl pushByCategory [] xs))"
    for xs
    using groupItems_keys [of cmp "foldl pushByCategory [] xs"]
    by (simp only: map_map [symmetric, of "indexOf categoryOrder" sectionCategory, unfolded comp_def])
  have i: "inj_on (indexOf categoryOrder) A" for A
    using indexOf_categoryOrder_inj by (rule inj_on_subset) simp
  have d: "distinct (map ?key (?S xs))" for xs
    unfolding k using categoryMap_distinct [of xs] i by (simp only: distinct_map simp_thms)
  have "fst ` set (foldl pushByCategory [] xs) = itemCategory ` set xs" for xs
    unfolding categoryMap_set by (simp add: image_image)
  then have s: "set (map ?key (?S xs)) = indexOf categoryOrder ` itemCategory ` set xs" for xs
    unfolding k by (simp only: set_map)
  from assms have "set (map ?key (?S items')) = set (map ?key (?S items))"
    by (simp only: s)
  then have "map ?key (sortBy (\<lambda>a b. ?key a - ?key b) (?S items'))
           = map ?key (sortBy (\<lambda>a b. ?key a - ?key b) (?S items))"
    using d d by (rule sortBy_key_unique)
  then have "map (indexOf categoryOrder) (map sectionCategory (groupItemsByCategory cmp items'))
           = map (indexOf categoryOrder) (map sectionCategory (groupItemsByCategory cmp items))"
    unfolding g by (simp only: map_map comp_def)
  with indexOf_categoryOrder_inj show ?thesis by (simp only: inj_map_eq_map)
qed

lemma category_union: "(\<Union>c \<in> itemCategory ` set items.
       (\<lambda>it. (c, f it)) ` {it \<in> set items. itemCategory it = c}) = (\<lambda>it. (itemCategory it, f it)) ` set items"
proof (intro set_eqI iffI)
  fix t
  assume "t \<in> (\<Union>c \<in> itemCategory ` set items.
       (\<lambda>it. (c, f it)) ` {it \<in> set items. itemCategory it = c})"
  then obtain c it where "it \<in> set items" "itemCategory it = c" "t = (c, f it)" by auto
  then have "t = (itemCategory it, f it)" "it \<in> set items" by simp_all
  then show "t \<in> (\<lambda>it. (itemCategory it, f it)) ` set items" by (rule image_eqI)
next
  fix t
  assume "t \<in> (\<lambda>it. (itemCategory it, f it)) ` set items"
  then obtain it where it: "it \<in> set items" "t = (itemCategory it, f it)" by (rule imageE)
  then have "t \<in> (\<lambda>it'. (itemCategory it, f it')) ` {it' \<in> set items. itemCategory it' = itemCategory it}"
    by simp
  moreover from it(1) have "itemCategory it \<in> itemCategory ` set items" by (rule imageI)
  ultimately show "t \<in> (\<Union>c \<in> itemCategory ` set items.
       (\<lambda>it. (c, f it)) ` {it \<in> set items. itemCategory it = c})" by (rule UN_I [rotated])
qed

lemma groupItems_triples:
  "(\<Union>s \<in> set (groupItemsByCategory cmp items).
       (\<lambda>it. (sectionCategory s, f it)) ` set (sectionItems s))
     = (\<lambda>it. (itemCategory it, f it)) ` set items"
proof -
  let ?F = "\<lambda>c. \<lparr>sectionCategory = c,
               sectionItems = sortBy (\<lambda>a b. cmp (itemName a) (itemName b))
                                (filter (\<lambda>it. itemCategory it = c) items),
               sectionCost = sum_list (map estimatedPrice
                                (filter (\<lambda>it. itemCategory it = c) items))\<rparr>"
  have e: "(\<lambda>it. (sectionCategory (?F c), f it)) ` set (sectionItems (?F c))
      = (\<lambda>it. (c, f it)) ` {it \<in> set items. itemCategory it = c}" for c
    by (simp add: sortBy_set)
  have "(\<Union>s \<in> set (groupItemsByCategory cmp items).
       (\<lambda>it. (sectionCategory s, f it)) ` set (sectionItems s))
     = (\<Union>c \<in> itemCategory ` set items.
          (\<lambda>it. (sectionCategory (?F c), f it)) ` set (sectionItems (?F c)))"
    unfolding groupItems_set by (simp only: image_image)
  also have "\<dots> = (\<Union>c \<in> itemCategory ` set items.
       (\<lambda>it. (c, f it)) ` {it \<in> set items. itemCategory it = c})"
    by (simp only: e)
  also have "\<dots> = (\<lambda>it. (itemCategory it, f it)) ` set items"
    by (rule category_union)
  finally show ?thesis .
qed


section \<open>The shopping list of a list of recipes\<close>

lemma shoppingList_sections:
  "sections (generateShoppingListFromRecipes cmp recipes req)
     = filter (\<lambda>s. sectionCategory s
                     \<notin> (case excludeCategories req of None \<Rightarrow> {} | Some ex \<Rightarrow> set ex))
         (groupItemsByCategory cmp
            (consolidateIngredients recipes (numberOfPeople_sl req)
               (consolidateItems req \<noteq> Some False)))"
proof -
  have b: "(case consolidateItems req of None \<Rightarrow> True | Some b \<Rightarrow> b)
      = (consolidateItems req \<noteq> Some False)"
    by (cases "consolidateItems req") auto
  show ?thesis
    unfolding generateShoppingListFromRecipes_def Let_def b
    by (cases "excludeCategories req") simp_all
qed

lemma itemQuantities_set:
  "set (itemQuantities sl)
     = (\<Union>s \<in> set (sections sl).
          (\<lambda>it. (sectionCategory s, itemName it, quantity it)) ` set (sectionItems s))"
  unfolding itemQuantities_def by simp

lemma itemNames_quantities:
  "itemNames sl = map (\<lambda>t. (fst t, fst (snd t))) (itemQuantities sl)"
  unfolding itemNames_def itemQuantities_def by (simp add: map_concat comp_def)

lemma filtered_triples:
  "(\<Union>s \<in> set (filter (\<lambda>s. sectionCategory s \<notin> X) secs).
       (\<lambda>it. (sectionCategory s, f it)) ` set (sectionItems s))
     = {t \<in> (\<Union>s \<in> set secs. (\<lambda>it. (sectionCategory s, f it)) ` set (sectionItems s)).
          fst t \<notin> X}"
  by auto

lemma shoppingList_triples:
  assumes "consolidateItems req \<noteq> Some False"
  shows "set (itemQuantities (generateShoppingListFromRecipes cmp recipes req))
     = {t \<in> (\<lambda>k. (categorizeIngredient k, k,
                   the (combineAll None
                          (map (scaledAmount (numberOfPeople_sl req))
                             (filter (\<lambda>e. ingName (snd e) = k) (entries recipes))))))
               ` (ingName ` snd ` set (entries recipes)).
          fst t \<notin> (case excludeCategories req of None \<Rightarrow> {} | Some ex \<Rightarrow> set ex)}"
proof -
  let ?people = "numberOfPeople_sl req"
  let ?items = "consolidateIngredients recipes ?people True"
  have i: "?items = map snd (foldl (stepE ?people) [] (entries recipes))"
    unfolding consolidateIngredients_def by (simp only: consolidate_entries)
  have t: "(\<lambda>it. (itemCategory it, itemName it, quantity it)) ` set ?items
      = (\<lambda>k. (categorizeIngredient k, k,
                   the (combineAll None
                          (map (scaledAmount ?people)
                             (filter (\<lambda>e. ingName (snd e) = k) (entries recipes))))))
               ` (ingName ` snd ` set (entries recipes))"
    unfolding i using consolidated_triples [of ?people "entries recipes"]
    by (simp only: set_map)
  from assms have s: "sections (generateShoppingListFromRecipes cmp recipes req)
     = filter (\<lambda>s. sectionCategory s
                     \<notin> (case excludeCategories req of None \<Rightarrow> {} | Some ex \<Rightarrow> set ex))
         (groupItemsByCategory cmp ?items)"
    by (simp only: shoppingList_sections simp_thms)
  show ?thesis
    unfolding itemQuantities_set s filtered_triples groupItems_triples t by (rule refl)
qed

lemma shoppingList_categories:
  assumes "consolidateItems req \<noteq> Some False"
    and "set (entries recipes') = set (entries recipes)"
  shows "map sectionCategory (sections (generateShoppingListFromRecipes cmp recipes' req))
       = map sectionCategory (sections (generateShoppingListFromRecipes cmp recipes req))"
proof -
  let ?people = "numberOfPeople_sl req"
  have i: "consolidateIngredients rs ?people True
      = map snd (foldl (stepE ?people) [] (entries rs))" for rs
    unfolding consolidateIngredients_def by (simp only: consolidate_entries)
  have c: "itemCategory ` set (consolidateIngredients rs ?people True)
      = categorizeIngredient ` ingName ` snd ` set (entries rs)" for rs
  proof -
    have "itemCategory ` set (consolidateIngredients rs ?people True)
        = fst ` (\<lambda>it. (itemCategory it, itemName it, quantity it))
            ` set (consolidateIngredients rs ?people True)"
      by (simp add: image_image)
    also have "\<dots> = fst ` (\<lambda>k. (categorizeIngredient k, k,
                   the (combineAll None
                          (map (scaledAmount ?people)
                             (filter (\<lambda>e. ingName (snd e) = k) (entries rs))))))
               ` (ingName ` snd ` set (entries rs))"
      unfolding i using consolidated_triples [of ?people "entries rs"]
      by (simp only: set_map)
    also have "\<dots> = categorizeIngredient ` ingName ` snd ` set (entries rs)"
      by (simp add: image_image)
    finally show ?thesis .
  qed
  from assms(2) have "itemCategory ` set (consolidateIngredients recipes' ?people True)
      = itemCategory ` set (consolidateIngredients recipes ?people True)"
    by (simp only: c)
  then have g: "map sectionCategory
         (groupItemsByCategory cmp (consolidateIngredients recipes' ?people True))
      = map sectionCategory
         (groupItemsByCategory cmp (consolidateIngredients recipes ?people True))"
    by (rule groupItems_categories)
  have f: "map sectionCategory (filter (\<lambda>s. sectionCategory s \<notin> X) secs)
      = filter (\<lambda>c. c \<notin> X) (map sectionCategory secs)" for X secs
    by (simp add: filter_map comp_def)
  from assms(1) have s: "sections (generateShoppingListFromRecipes cmp rs req)
     = filter (\<lambda>s. sectionCategory s
                     \<notin> (case excludeCategories req of None \<Rightarrow> {} | Some ex \<Rightarrow> set ex))
         (groupItemsByCategory cmp (consolidateIngredients rs ?people True))" for rs
    by (simp only: shoppingList_sections simp_thms)
  show ?thesis unfolding s f g by (rule refl)
qed

lemma names_of_triples:
  "(\<lambda>t. (fst t, fst (snd t))) ` {t \<in> (\<lambda>k. (c k, k, q k)) ` N. fst t \<notin> X}
     = (\<lambda>k. (c k, k)) ` {k \<in> N. c k \<notin> X}"
  by force

lemma shoppingList_names:
  assumes "consolidateItems req \<noteq> Some False"
  shows "set (itemNames (generateShoppingListFromRecipes cmp recipes req))
     = (\<lambda>k. (categorizeIngredient k, k))
         ` {k \<in> ingName ` snd ` set (entries recipes).
              categorizeIngredient k
                \<notin> (case excludeCategories req of None \<Rightarrow> {} | Some ex \<Rightarrow> set ex)}"
  unfolding itemNames_quantities set_map shoppingList_triples [OF assms]
  by (rule names_of_triples)

lemma entries_recipe: "e \<in> set (entries recipes) \<Longrightarrow> fst e \<in> set recipes"
  unfolding entries_def by auto


end
